theory Spec2Isabelle
  imports Main "HOL-Library.Option_ord"
begin

section \<open>Scoring: outcome of a prediction (models/prediction.py)\<close>

text \<open>
  A fixture row carries nullable goal columns, a prediction row does not
  (\<open>nullable=False\<close>).  Only the columns the scoring reads are kept here.
\<close>

record prediction =
  p_fixture_id :: int
  p_user_id :: int
  p_guild_id :: int
  p_home_goals :: int
  p_away_goals :: int

record fixture =
  f_id :: int
  f_league_id :: int
  f_date :: string
  f_round :: string
  f_home_team_id :: int
  f_away_team_id :: int
  f_status :: string
  f_home_goals :: "int option"
  f_away_goals :: "int option"

section \<open>The persistent store (models/*.py, data_interface.py)\<close>

text \<open>
  The mapped classes with their columns.  \<open>rank\<close> of a league is nullable and is
  never set by \<open>League.from_api\<close>.  An alias has four nullable references.
\<close>

record league =
  lg_id :: int
  lg_name :: string
  lg_country :: string
  lg_season :: int
  lg_is_current :: bool
  lg_rank :: "int option"

record team =
  tm_id :: int
  tm_name :: string

record user =
  discord_id :: int

record alias_row =
  a_value :: string
  a_fixture_id :: "int option"
  a_league_id :: "int option"
  a_team_id :: "int option"
  a_user_id :: "int option"

text \<open>
  A table is the list of its rows; a row is found by its primary key, the first one
  that matches.  \<open>teams_leagues\<close> is the association table, whose primary key is the
  pair \<open>(team_id, league_id)\<close>.
\<close>

record store =
  leagues :: "league list"
  fixtures :: "fixture list"
  teams :: "team list"
  users :: "user list"
  aliases :: "alias_row list"
  teams_leagues :: "(int \<times> int) list"

datatype kind = KFixture | KLeague | KTeam | KUser

datatype entity = EFixture fixture | ELeague league | ETeam team | EUser user

text \<open>
  Exceptions of the program are values.  The message of a \<open>CommandDataError\<close> is kept
  as the parts its f-string interpolates, not as rendered text.
\<close>

datatype command_data_error =
    AliasIsNumber
  | NoEntityWithId kind string
  | AliasAlreadyExists string "entity option"

datatype error =
    TypeError
  | KeyError string
  | AttributeError
  | APIError
  | CommandDataError command_data_error
  | OtherError string

text \<open>
  The three outcome members of the enum \<open>PredictionOutcome\<close>, told apart by name.
  Their values are the configured points and zero; the fourth member, \<open>FORMULA\<close>, is a
  text and is never returned by \<open>determine_outcome\<close>.
\<close>

datatype outcome = SCORE | RESULT | INCORRECT

text \<open>
  \<open>PredictionOutcome.determine_outcome\<close>.  Comparing \<open>None\<close> with \<open>==\<close> is allowed
  in Python, ordering \<open>None\<close> against an integer raises \<open>TypeError\<close>; the
  conditions are evaluated left to right with short-circuit \<open>and\<close>/\<open>or\<close>.
\<close>

definition py_eq_goals :: "int option \<Rightarrow> int \<Rightarrow> bool" where
  "py_eq_goals g n = (g = Some n)"

definition py_gt :: "int option \<Rightarrow> int option \<Rightarrow> error + bool" where
  "py_gt a b = (case (a, b) of (Some x, Some y) \<Rightarrow> Inr (x > y) | _ \<Rightarrow> Inl TypeError)"

definition py_lt :: "int option \<Rightarrow> int option \<Rightarrow> error + bool" where
  "py_lt a b = (case (a, b) of (Some x, Some y) \<Rightarrow> Inr (x < y) | _ \<Rightarrow> Inl TypeError)"

definition determine_outcome :: "prediction \<Rightarrow> fixture \<Rightarrow> error + outcome" where
  "determine_outcome p f =
    (if py_eq_goals (f_home_goals f) (p_home_goals p) \<and> py_eq_goals (f_away_goals f) (p_away_goals p)
     then Inr SCORE
     else if f_home_goals f = f_away_goals f \<and> p_home_goals p = p_away_goals p
     then Inr RESULT
     else (case py_gt (f_home_goals f) (f_away_goals f) of
         Inl e \<Rightarrow> Inl e
       | Inr gt \<Rightarrow>
           if gt \<and> p_home_goals p > p_away_goals p then Inr RESULT
           else (case py_lt (f_home_goals f) (f_away_goals f) of
               Inl e \<Rightarrow> Inl e
             | Inr lt \<Rightarrow>
                 if lt \<and> p_home_goals p < p_away_goals p then Inr RESULT
                 else Inr INCORRECT)))"

text \<open>A played match with the given score, and a prediction with the given score.\<close>

definition played :: "int \<Rightarrow> int \<Rightarrow> fixture" where
  "played h a = \<lparr>f_id = 1, f_league_id = 1, f_date = ''2020-01-01T15:00:00+00:00'',
     f_round = ''Regular Season - 1'', f_home_team_id = 10, f_away_team_id = 20,
     f_status = ''Match Finished'', f_home_goals = Some h, f_away_goals = Some a\<rparr>"

definition predicted :: "int \<Rightarrow> int \<Rightarrow> prediction" where
  "predicted h a = \<lparr>p_fixture_id = 1, p_user_id = 7, p_guild_id = 3,
     p_home_goals = h, p_away_goals = a\<rparr>"

section \<open>Scoring: merging the legacy scores (cogs/predictions.py, leaderboard)\<close>

text \<open>
  One entry of \<open>final_scores\<close>: the dict with keys \<open>points\<close>, \<open>results\<close>,
  \<open>scores\<close>.  One entry of the legacy document: \<open>scores\<close> and \<open>results\<close>.
  Python dicts keep insertion order, so both are association lists.
\<close>

record user_info =
  points :: int
  results :: int
  scores :: int

record legacy_entry =
  l_scores :: int
  l_results :: int

type_synonym final_scores = "(string \<times> user_info) list"

text \<open>\<open>user in final_scores.keys()\<close> and the two branches of the merge loop.\<close>

fun add_existing :: "string \<Rightarrow> user_info \<Rightarrow> final_scores \<Rightarrow> final_scores" where
  "add_existing u d [] = []"
| "add_existing u d ((k, v) # rest) =
    (if k = u
     then (k, \<lparr>points = points v + points d, results = results v + results d,
               scores = scores v + scores d\<rparr>) # rest
     else (k, v) # add_existing u d rest)"

definition merge_entry ::
  "int \<Rightarrow> int \<Rightarrow> string \<times> legacy_entry \<Rightarrow> final_scores \<Rightarrow> final_scores" where
  "merge_entry ps pr e fs =
    (let user = fst e; values = snd e;
         pts = (l_scores values * ps) + (l_results values * pr)
     in if user \<in> set (map fst fs)
        then add_existing user \<lparr>points = pts, results = l_results values, scores = l_scores values\<rparr> fs
        else fs @ [(user, \<lparr>points = pts, results = l_results values, scores = l_scores values\<rparr>)])"

text \<open>
  The loop \<open>for user, values in spfl_scores.items()\<close>; \<open>ps\<close> and \<open>pr\<close> are
  \<open>PredictionOutcome.SCORE.value\<close> and \<open>PredictionOutcome.RESULT.value\<close>.
\<close>

definition merge_scores ::
  "int \<Rightarrow> int \<Rightarrow> (string \<times> legacy_entry) list \<Rightarrow> final_scores \<Rightarrow> final_scores" where
  "merge_scores ps pr spfl fs = fold (merge_entry ps pr) spfl fs"

section \<open>The data interface (data_interface.py)\<close>

text \<open>
  \<open>session.merge(item)\<close>: the row with the primary key of \<open>item\<close> takes the attributes
  that are set on \<open>item\<close> (\<open>cp item row\<close>); without such a row, \<open>item\<close> becomes a new
  row.  Each call of \<open>add_or_update\<close> commits on its own.
\<close>

fun merge_row :: "('a \<Rightarrow> 'k) \<Rightarrow> ('a \<Rightarrow> 'a \<Rightarrow> 'a) \<Rightarrow> 'a \<Rightarrow> 'a list \<Rightarrow> 'a list" where
  "merge_row key cp x [] = [x]"
| "merge_row key cp x (r # rs) =
    (if key r = key x then cp x r # rs else r # merge_row key cp x rs)"

text \<open>
  \<open>League.from_api\<close> sets every column but \<open>rank\<close>, so a merge leaves the stored
  rank alone.  \<open>Fixture.from_api\<close> and \<open>Team.from_api\<close> set every column.
\<close>

definition cp_league :: "league \<Rightarrow> league \<Rightarrow> league" where
  "cp_league x r = x\<lparr>lg_rank := lg_rank r\<rparr>"

definition cp_all :: "'a \<Rightarrow> 'a \<Rightarrow> 'a" where
  "cp_all x r = x"

definition add_or_update_league :: "league \<Rightarrow> store \<Rightarrow> store" where
  "add_or_update_league x s = s\<lparr>leagues := merge_row lg_id cp_league x (leagues s)\<rparr>"

definition add_or_update_fixture :: "fixture \<Rightarrow> store \<Rightarrow> store" where
  "add_or_update_fixture x s = s\<lparr>fixtures := merge_row f_id cp_all x (fixtures s)\<rparr>"

definition add_or_update_team :: "team \<Rightarrow> store \<Rightarrow> store" where
  "add_or_update_team x s = s\<lparr>teams := merge_row tm_id cp_all x (teams s)\<rparr>"

text \<open>
  The alias column \<open>value\<close> has collation \<open>NOCASE\<close>: two values are the same key when
  they agree after folding the letters A to Z to lower case.
\<close>

definition lower_char :: "char \<Rightarrow> char" where
  "lower_char c = (let n = (of_char c :: nat) in if 65 \<le> n \<and> n \<le> 90 then char_of (n + 32) else c)"

definition nocase :: "string \<Rightarrow> string" where
  "nocase v = map lower_char v"

text \<open>
  The alias object that \<open>_set_alias\<close> builds has \<open>value\<close> and one reference set; the
  references it leaves unset (\<open>None\<close> here) are not copied by the merge.
\<close>

definition keep_unset :: "int option \<Rightarrow> int option \<Rightarrow> int option" where
  "keep_unset new old = (case new of None \<Rightarrow> old | Some i \<Rightarrow> Some i)"

definition cp_alias :: "alias_row \<Rightarrow> alias_row \<Rightarrow> alias_row" where
  "cp_alias x r = \<lparr>a_value = a_value x,
     a_fixture_id = keep_unset (a_fixture_id x) (a_fixture_id r),
     a_league_id = keep_unset (a_league_id x) (a_league_id r),
     a_team_id = keep_unset (a_team_id x) (a_team_id r),
     a_user_id = keep_unset (a_user_id x) (a_user_id r)\<rparr>"

definition add_or_update_alias :: "alias_row \<Rightarrow> store \<Rightarrow> store" where
  "add_or_update_alias x s = s\<lparr>aliases := merge_row (nocase \<circ> a_value) cp_alias x (aliases s)\<rparr>"

text \<open>\<open>session.query(Alias).get(value)\<close>.\<close>

definition get_alias :: "store \<Rightarrow> string \<Rightarrow> alias_row option" where
  "get_alias s v = find (\<lambda>a. nocase (a_value a) = nocase v) (aliases s)"

text \<open>\<open>session.query(cls).get(pk)\<close> for an integer key.\<close>

definition by_pk :: "store \<Rightarrow> kind \<Rightarrow> int \<Rightarrow> entity option" where
  "by_pk s k i =
    (case k of
       KFixture \<Rightarrow> map_option EFixture (find (\<lambda>r. f_id r = i) (fixtures s))
     | KLeague \<Rightarrow> map_option ELeague (find (\<lambda>r. lg_id r = i) (leagues s))
     | KTeam \<Rightarrow> map_option ETeam (find (\<lambda>r. tm_id r = i) (teams s))
     | KUser \<Rightarrow> map_option EUser (find (\<lambda>r. discord_id r = i) (users s)))"

text \<open>
  The commands pass identifiers as text.  Compared with an integer key column, a text
  that reads as a decimal integer is that integer, and any other text equals no key.
\<close>

definition is_digit :: "char \<Rightarrow> bool" where
  "is_digit c = (let n = (of_char c :: nat) in 48 \<le> n \<and> n \<le> 57)"

definition digit_val :: "char \<Rightarrow> nat" where
  "digit_val c = of_char c - 48"

definition nat_of_digits :: "string \<Rightarrow> nat" where
  "nat_of_digits ds = foldl (\<lambda>acc c. 10 * acc + digit_val c) 0 ds"

definition int_of_text :: "string \<Rightarrow> int option" where
  "int_of_text v =
    (case v of
       [] \<Rightarrow> None
     | c # cs \<Rightarrow>
         if c = CHR ''-'' then (if cs \<noteq> [] \<and> list_all is_digit cs then Some (- int (nat_of_digits cs)) else None)
         else if list_all is_digit v then Some (int (nat_of_digits v))
         else None)"

text \<open>The decimal text of an identifier, as a command carries it.\<close>

fun text_of_nat :: "nat \<Rightarrow> string" where
  "text_of_nat n = (if n < 10 then [char_of (48 + n)] else text_of_nat (n div 10) @ [char_of (48 + n mod 10)])"

declare text_of_nat.simps [simp del]

definition text_of_int :: "int \<Rightarrow> string" where
  "text_of_int i = (if i < 0 then CHR ''-'' # text_of_nat (nat (- i)) else text_of_nat (nat i))"

definition by_pk_text :: "store \<Rightarrow> kind \<Rightarrow> string \<Rightarrow> entity option" where
  "by_pk_text s k v = (case int_of_text v of None \<Rightarrow> None | Some i \<Rightarrow> by_pk s k i)"

text \<open>The reference of an alias to an entity of the given class, and that entity.\<close>

definition alias_ref :: "kind \<Rightarrow> alias_row \<Rightarrow> int option" where
  "alias_ref k a =
    (case k of KFixture \<Rightarrow> a_fixture_id a | KLeague \<Rightarrow> a_league_id a
     | KTeam \<Rightarrow> a_team_id a | KUser \<Rightarrow> a_user_id a)"

definition related :: "store \<Rightarrow> kind \<Rightarrow> alias_row \<Rightarrow> entity option" where
  "related s k a = (case alias_ref k a of None \<Rightarrow> None | Some i \<Rightarrow> by_pk s k i)"

text \<open>
  \<open>DataInterface.get(cls, id_or_alias)\<close> for a class other than \<open>Alias\<close>: the alias with
  that value joined with the table of \<open>cls\<close>; when the join has no row
  (\<open>NoResultFound\<close>), the row of \<open>cls\<close> with that primary key.  The alias value is a
  primary key, so the join never has two rows.
\<close>

definition get_entity :: "store \<Rightarrow> kind \<Rightarrow> string \<Rightarrow> entity option" where
  "get_entity s k id_or_alias =
    (case (case get_alias s id_or_alias of None \<Rightarrow> None | Some a \<Rightarrow> related s k a) of
       Some e \<Rightarrow> Some e
     | None \<Rightarrow> by_pk_text s k id_or_alias)"

section \<open>Setting an alias (cogs/aliases.py)\<close>

definition entity_pk :: "entity \<Rightarrow> int" where
  "entity_pk e = (case e of EFixture f \<Rightarrow> f_id f | ELeague l \<Rightarrow> lg_id l
     | ETeam t \<Rightarrow> tm_id t | EUser u \<Rightarrow> discord_id u)"

text \<open>\<open>Alias(value=alias_value)\<close> followed by \<open>setattr(alias, cls.__name__.lower(), alias_ref)\<close>.\<close>

definition new_alias :: "kind \<Rightarrow> string \<Rightarrow> entity \<Rightarrow> alias_row" where
  "new_alias k v e =
    \<lparr>a_value = v,
     a_fixture_id = (if k = KFixture then Some (entity_pk e) else None),
     a_league_id = (if k = KLeague then Some (entity_pk e) else None),
     a_team_id = (if k = KTeam then Some (entity_pk e) else None),
     a_user_id = (if k = KUser then Some (entity_pk e) else None)\<rparr>"

text \<open>\<open>Aliases._validate_and_get_alias_ref\<close>; \<open>all\<close> over no character is true.\<close>

definition validate_and_get_alias_ref :: "store \<Rightarrow> kind \<Rightarrow> string \<Rightarrow> string \<Rightarrow> error + entity" where
  "validate_and_get_alias_ref s k alias_value ident =
    (if list_all is_digit alias_value then Inl (CommandDataError AliasIsNumber)
     else (case get_entity s k ident of
         None \<Rightarrow> Inl (CommandDataError (NoEntityWithId k ident))
       | Some ref \<Rightarrow> Inr ref))"

text \<open>The two messages that \<open>_set_alias\<close> sends on success.\<close>

datatype sent = Added string entity | Replaced string entity

text \<open>\<open>Aliases._set_alias\<close>: the store it leaves and the error it raises or the message it sends.\<close>

definition set_alias :: "store \<Rightarrow> kind \<Rightarrow> string \<Rightarrow> string \<Rightarrow> bool \<Rightarrow> store \<times> (error + sent)" where
  "set_alias s k alias_value ident overwrite =
    (case validate_and_get_alias_ref s k alias_value ident of
       Inl e \<Rightarrow> (s, Inl e)
     | Inr ref \<Rightarrow>
         (case get_alias s alias_value of
            Some existing_alias \<Rightarrow>
              if \<not> overwrite
              then (s, Inl (CommandDataError
                      (AliasAlreadyExists (a_value existing_alias) (related s k existing_alias))))
              else (add_or_update_alias (new_alias k alias_value ref) s,
                    Inr (Replaced alias_value ref))
          | None \<Rightarrow>
              (add_or_update_alias (new_alias k alias_value ref) s,
               Inr (Added alias_value ref))))"

section \<open>The football API (football_api.py)\<close>

text \<open>
  A JSON document as Python holds it after \<open>json.load\<close>.  \<open>JNull\<close> is \<open>None\<close>, which is also
  what \<open>_read_backup\<close> returns when it finds no file.  A dict is the list of its items.
\<close>

datatype json =
    JNull
  | JBool bool
  | JInt int
  | JStr string
  | JList "json list"
  | JDict "(string \<times> json) list"

text \<open>
  \<open>x[key]\<close> with a string key: a dict gives the value or raises \<open>KeyError\<close>, every other
  value raises \<open>TypeError\<close> (\<open>None\<close> is not subscriptable, a list or a string wants an
  integer index).
\<close>

definition subscript :: "json \<Rightarrow> string \<Rightarrow> error + json" where
  "subscript x key =
    (case x of
       JDict items \<Rightarrow> (case map_of items key of None \<Rightarrow> Inl (KeyError key) | Some v \<Rightarrow> Inr v)
     | _ \<Rightarrow> Inl TypeError)"

text \<open>\<open>for item in x\<close>: the members of a list, the keys of a dict, the characters of a string.\<close>

definition py_iter :: "json \<Rightarrow> error + json list" where
  "py_iter x =
    (case x of
       JList xs \<Rightarrow> Inr xs
     | JDict items \<Rightarrow> Inr (map (JStr \<circ> fst) items)
     | JStr cs \<Rightarrow> Inr (map (\<lambda>c. JStr [c]) cs)
     | _ \<Rightarrow> Inl TypeError)"

text \<open>\<open>key in x\<close> for a string key; in a string it asks for a substring.\<close>

fun starts_with :: "string \<Rightarrow> string \<Rightarrow> bool" where
  "starts_with [] cs = True"
| "starts_with (k # ks) [] = False"
| "starts_with (k # ks) (c # cs) = (k = c \<and> starts_with ks cs)"

fun has_substring :: "string \<Rightarrow> string \<Rightarrow> bool" where
  "has_substring key [] = (key = [])"
| "has_substring key (c # cs) = (starts_with key (c # cs) \<or> has_substring key cs)"

definition py_in :: "string \<Rightarrow> json \<Rightarrow> error + bool" where
  "py_in key x =
    (case x of
       JDict items \<Rightarrow> Inr (key \<in> set (map fst items))
     | JList xs \<Rightarrow> Inr (JStr key \<in> set xs)
     | JStr cs \<Rightarrow> Inr (has_substring key cs)
     | _ \<Rightarrow> Inl TypeError)"

text \<open>
  What the API object works with: the host and the backup directory of the
  configuration, the texts of today's and yesterday's date in the format
  \<open>%Y%m%d\<close>, the answer to a GET request of a URL (what \<open>requests.get\<close>,
  \<open>raise_for_status\<close> and \<open>r.json()\<close> give or raise), and the backup files: for a
  path that exists, what opening and loading it gives or raises.
\<close>

record api_env =
  host :: string
  api_backup_dir :: string
  today :: string
  yesterday :: string
  http_get :: "string \<Rightarrow> error + json"
  files :: "string \<Rightarrow> (error + json) option"

text \<open>\<open>os.path.join\<close> of the directory and a file name that is not absolute.\<close>

definition path_join :: "string \<Rightarrow> string \<Rightarrow> string" where
  "path_join dir name =
    (if dir = [] then name else if last dir = CHR ''/'' then dir @ name else dir @ ''/'' @ name)"

definition backup_path :: "api_env \<Rightarrow> string \<Rightarrow> string \<Rightarrow> string" where
  "backup_path env data_id day = path_join (api_backup_dir env) (data_id @ ''.'' @ day @ ''.json'')"

text \<open>\<open>FootballAPI._read_backup\<close>.\<close>

definition read_backup :: "api_env \<Rightarrow> string \<Rightarrow> error + json" where
  "read_backup env data_id =
    (case files env (backup_path env data_id (today env)) of
       Some loaded \<Rightarrow> loaded
     | None \<Rightarrow>
         (case files env (backup_path env data_id (yesterday env)) of
            Some loaded \<Rightarrow> loaded
          | None \<Rightarrow> Inr JNull))"

text \<open>\<open>FootballAPI._write_backup\<close>; the write itself is taken to succeed.\<close>

definition write_backup :: "api_env \<Rightarrow> json \<Rightarrow> string \<Rightarrow> api_env" where
  "write_backup env data data_id =
    env\<lparr>files := (files env)(backup_path env data_id (today env) := Some (Inr data))\<rparr>"

text \<open>\<open>FootballAPI._do\<close>.\<close>

definition api_do :: "api_env \<Rightarrow> string \<Rightarrow> error + json" where
  "api_do env endpoint =
    (case http_get env (host env @ endpoint) of
       Inl e \<Rightarrow> Inl e
     | Inr resp_json \<Rightarrow>
         (case subscript resp_json ''api'' of
            Inl e \<Rightarrow> Inl e
          | Inr api \<Rightarrow>
              (case py_in ''error'' api of
                 Inl e \<Rightarrow> Inl e
               | Inr True \<Rightarrow> (case subscript api ''error'' of Inl e \<Rightarrow> Inl e | Inr msg \<Rightarrow> Inl APIError)
               | Inr False \<Rightarrow> Inr resp_json)))"

text \<open>
  The backup or the live response of a data type: the first lines of the three
  \<open>get_\<close> methods.  The environment changes by the backup written after a live call.
\<close>

definition fetch :: "api_env \<Rightarrow> string \<Rightarrow> string \<Rightarrow> bool \<Rightarrow> api_env \<times> (error + json)" where
  "fetch env endpoint data_id use_backup =
    (if use_backup then (env, read_backup env data_id)
     else (case api_do env endpoint of
         Inl e \<Rightarrow> (env, Inl e)
       | Inr data \<Rightarrow> (write_backup env data data_id, Inr data)))"

text \<open>
  The list comprehensions.  \<open>from_api\<close> stands for \<open>League.from_api\<close>,
  \<open>Fixture.from_api\<close> or \<open>Team.from_api\<close>, which build the object from an item or
  raise.  The condition of a comprehension is evaluated before its element.
\<close>

fun build_all :: "(json \<Rightarrow> error + 'a) \<Rightarrow> json list \<Rightarrow> error + 'a list" where
  "build_all from_api [] = Inr []"
| "build_all from_api (item # items) =
    (case from_api item of
       Inl e \<Rightarrow> Inl e
     | Inr x \<Rightarrow> (case build_all from_api items of Inl e \<Rightarrow> Inl e | Inr xs \<Rightarrow> Inr (x # xs)))"

fun select_leagues ::
  "(json \<Rightarrow> error + 'a) \<Rightarrow> json list \<Rightarrow> json list \<Rightarrow> json list \<Rightarrow> error + 'a list" where
  "select_leagues from_api countries seasons [] = Inr []"
| "select_leagues from_api countries seasons (league # rest) =
    (case subscript league ''type'' of
       Inl e \<Rightarrow> Inl e
     | Inr ty \<Rightarrow>
         if ty \<noteq> JStr ''League'' then select_leagues from_api countries seasons rest
         else (case subscript league ''season'' of
             Inl e \<Rightarrow> Inl e
           | Inr season \<Rightarrow>
               if season \<notin> set seasons then select_leagues from_api countries seasons rest
               else (case subscript league ''country'' of
                   Inl e \<Rightarrow> Inl e
                 | Inr country \<Rightarrow>
                     if country \<notin> set countries then select_leagues from_api countries seasons rest
                     else (case from_api league of
                         Inl e \<Rightarrow> Inl e
                       | Inr x \<Rightarrow>
                           (case select_leagues from_api countries seasons rest of
                              Inl e \<Rightarrow> Inl e
                            | Inr xs \<Rightarrow> Inr (x # xs))))))"

text \<open>\<open>data["api"][name]\<close>, iterated.\<close>

definition api_items :: "json \<Rightarrow> string \<Rightarrow> error + json list" where
  "api_items data name =
    (case subscript data ''api'' of
       Inl e \<Rightarrow> Inl e
     | Inr api \<Rightarrow> (case subscript api name of Inl e \<Rightarrow> Inl e | Inr xs \<Rightarrow> py_iter xs))"

text \<open>\<open>FootballAPI.get_leagues\<close>, \<open>get_fixtures_by_league\<close> and \<open>get_teams_by_league\<close>.\<close>

definition get_leagues ::
  "(json \<Rightarrow> error + 'a) \<Rightarrow> api_env \<Rightarrow> json list \<Rightarrow> json list \<Rightarrow> bool \<Rightarrow> api_env \<times> (error + 'a list)" where
  "get_leagues from_api env countries seasons use_backup =
    (case fetch env ''/leagues'' ''leagues'' use_backup of
       (env', Inl e) \<Rightarrow> (env', Inl e)
     | (env', Inr data) \<Rightarrow>
         (env', case api_items data ''leagues'' of
                  Inl e \<Rightarrow> Inl e
                | Inr items \<Rightarrow> select_leagues from_api countries seasons items))"

definition get_fixtures_by_league ::
  "(json \<Rightarrow> error + 'a) \<Rightarrow> api_env \<Rightarrow> string \<Rightarrow> string \<Rightarrow> bool \<Rightarrow> api_env \<times> (error + 'a list)" where
  "get_fixtures_by_league from_api env league_id tz use_backup =
    (case fetch env (''/fixtures/league/'' @ league_id @ ''?timezone='' @ tz)
            (''fixtures.'' @ league_id) use_backup of
       (env', Inl e) \<Rightarrow> (env', Inl e)
     | (env', Inr data) \<Rightarrow>
         (env', case api_items data ''fixtures'' of
                  Inl e \<Rightarrow> Inl e
                | Inr items \<Rightarrow> build_all from_api items))"

definition get_teams_by_league ::
  "(json \<Rightarrow> error + 'a) \<Rightarrow> api_env \<Rightarrow> string \<Rightarrow> bool \<Rightarrow> api_env \<times> (error + 'a list)" where
  "get_teams_by_league from_api env league_id use_backup =
    (case fetch env (''/teams/league/'' @ league_id) (''teams.'' @ league_id) use_backup of
       (env', Inl e) \<Rightarrow> (env', Inl e)
     | (env', Inr data) \<Rightarrow>
         (env', case api_items data ''teams'' of
                  Inl e \<Rightarrow> Inl e
                | Inr items \<Rightarrow> build_all from_api items))"

text \<open>An environment without any backup file.\<close>

definition no_backups :: "api_env \<Rightarrow> api_env" where
  "no_backups env = env\<lparr>files := (\<lambda>path. None)\<rparr>"

section \<open>The data loader (data_loader.py)\<close>

text \<open>
  The loader is built from a data interface and a football API object.  The API object
  is kept abstract here: what each of its four methods returns or raises.  The plan
  status is asked for twice in a refresh, so \<open>api_get_status\<close> takes the number of the
  request.  The status is the dict the loader subscripts.
\<close>

record football_api =
  api_get_leagues :: "string list \<Rightarrow> int list \<Rightarrow> bool \<Rightarrow> error + league list"
  api_get_fixtures_by_league :: "int \<Rightarrow> bool \<Rightarrow> error + fixture list"
  api_get_teams_by_league :: "int \<Rightarrow> bool \<Rightarrow> error + team list"
  api_get_status :: "nat \<Rightarrow> error + (string \<times> int) list"

text \<open>
  The configuration and arguments the loader reads from \<open>env\<close>, and two things that
  are not of the program but of what runs it.  \<open>null_member\<close> says what the
  object-relational mapper does when \<open>None\<close> is appended to the teams of a league and
  the session is committed: raise the given error or skip the entry.  \<open>set_order\<close> is
  the order in which Python iterates a set: given the league whose set it is and the
  members of the set, the list in which \<open>for team in teams\<close> visits them.  That
  order follows the hashes of the objects, so it may differ from one set to another
  and from one run to the next.
\<close>

record config =
  countries :: "string list"
  seasons :: "int list"
  use_backup :: bool
  ignore_refresh_failures :: bool
  null_member :: "error option"
  set_order :: "int option \<Rightarrow> int option list \<Rightarrow> int option list"

datatype refresh_key = Leagues | Fixtures | Teams | Team_leagues

record data_loader =
  data_interface :: store
  last_refresh_times :: "refresh_key \<Rightarrow> nat option"

text \<open>\<open>DataLoader.get_remaining_api_calls\<close>.\<close>

definition get_remaining_api_calls :: "football_api \<Rightarrow> nat \<Rightarrow> error + int" where
  "get_remaining_api_calls api n =
    (case api_get_status api n of
       Inl e \<Rightarrow> Inl e
     | Inr status \<Rightarrow>
         (case map_of status ''requests_limit_day'' of
            None \<Rightarrow> Inl (KeyError ''requests_limit_day'')
          | Some limit_day \<Rightarrow>
              (case map_of status ''requests'' of
                 None \<Rightarrow> Inl (KeyError ''requests'')
               | Some requests \<Rightarrow> Inr (limit_day - requests))))"

text \<open>
  \<open>DataInterface.get_current_leagues\<close>: the current leagues ordered by rank, a missing
  rank first.
\<close>

definition get_current_leagues :: "store \<Rightarrow> league list" where
  "get_current_leagues s = sort_key lg_rank (filter lg_is_current (leagues s))"

text \<open>
  The stages.  Each returns the loader it leaves and the exception it raises, if any.
  \<open>now\<close> is the reading of \<open>datetime.now()\<close> at the end of each stage.
\<close>

definition populate_leagues ::
  "config \<Rightarrow> football_api \<Rightarrow> (refresh_key \<Rightarrow> nat) \<Rightarrow> data_loader \<Rightarrow> data_loader \<times> error option" where
  "populate_leagues cfg api now d =
    (case api_get_leagues api (countries cfg) (seasons cfg) (use_backup cfg) of
       Inl e \<Rightarrow> (d, Some e)
     | Inr ls \<Rightarrow>
         (d\<lparr>data_interface := fold add_or_update_league ls (data_interface d),
            last_refresh_times := (last_refresh_times d)(Leagues := Some (now Leagues))\<rparr>, None))"

fun fixtures_loop :: "football_api \<Rightarrow> bool \<Rightarrow> league list \<Rightarrow> store \<Rightarrow> store \<times> error option" where
  "fixtures_loop api ub [] s = (s, None)"
| "fixtures_loop api ub (l # ls) s =
    (case api_get_fixtures_by_league api (lg_id l) ub of
       Inl e \<Rightarrow> (s, Some e)
     | Inr fs \<Rightarrow> fixtures_loop api ub ls (fold add_or_update_fixture fs s))"

definition populate_fixtures ::
  "config \<Rightarrow> football_api \<Rightarrow> (refresh_key \<Rightarrow> nat) \<Rightarrow> data_loader \<Rightarrow> data_loader \<times> error option" where
  "populate_fixtures cfg api now d =
    (case fixtures_loop api (use_backup cfg) (get_current_leagues (data_interface d)) (data_interface d) of
       (s, Some e) \<Rightarrow> (d\<lparr>data_interface := s\<rparr>, Some e)
     | (s, None) \<Rightarrow>
         (d\<lparr>data_interface := s,
            last_refresh_times := (last_refresh_times d)(Fixtures := Some (now Fixtures))\<rparr>, None))"

fun teams_loop :: "football_api \<Rightarrow> bool \<Rightarrow> league list \<Rightarrow> store \<Rightarrow> store \<times> error option" where
  "teams_loop api ub [] s = (s, None)"
| "teams_loop api ub (l # ls) s =
    (case api_get_teams_by_league api (lg_id l) ub of
       Inl e \<Rightarrow> (s, Some e)
     | Inr ts \<Rightarrow> teams_loop api ub ls (fold add_or_update_team ts s))"

definition populate_teams ::
  "config \<Rightarrow> football_api \<Rightarrow> (refresh_key \<Rightarrow> nat) \<Rightarrow> data_loader \<Rightarrow> data_loader \<times> error option" where
  "populate_teams cfg api now d =
    (case teams_loop api (use_backup cfg) (get_current_leagues (data_interface d)) (data_interface d) of
       (s, Some e) \<Rightarrow> (d\<lparr>data_interface := s\<rparr>, Some e)
     | (s, None) \<Rightarrow>
         (d\<lparr>data_interface := s,
            last_refresh_times := (last_refresh_times d)(Teams := Some (now Teams))\<rparr>, None))"

text \<open>
  \<open>fixture.league\<close>, \<open>fixture.home_team\<close> and \<open>fixture.away_team\<close>: the row the foreign key
  refers to, given by its key, or \<open>None\<close> when there is no such row.
\<close>

definition fixture_league :: "store \<Rightarrow> fixture \<Rightarrow> int option" where
  "fixture_league s f = map_option lg_id (find (\<lambda>l. lg_id l = f_league_id f) (leagues s))"

definition team_of :: "store \<Rightarrow> int \<Rightarrow> int option" where
  "team_of s i = map_option tm_id (find (\<lambda>t. tm_id t = i) (teams s))"

text \<open>
  A Python set is kept as the list of its members without repetition.  The order of
  that list is not the order in which Python iterates the set: every iteration of a
  set of teams goes through \<open>set_order\<close>, so the order in which \<open>update\<close> takes the two
  teams of a fixture has no effect either.
  \<open>leagues.setdefault(key, set()).update(members)\<close> works on a dict, which is kept in
  insertion order.
\<close>

definition set_update :: "'a list \<Rightarrow> 'a list \<Rightarrow> 'a list" where
  "set_update members new = fold (\<lambda>x acc. if x \<in> set acc then acc else acc @ [x]) new members"

fun setdefault_update :: "'k \<Rightarrow> 'a list \<Rightarrow> ('k \<times> 'a list) list \<Rightarrow> ('k \<times> 'a list) list" where
  "setdefault_update k new [] = [(k, set_update [] new)]"
| "setdefault_update k new ((k', members) # rest) =
    (if k' = k then (k', set_update members new) # rest
     else (k', members) # setdefault_update k new rest)"

text \<open>
  \<open>DataInterface.add_team_to_league\<close>.  \<open>league.teams\<close> raises \<open>AttributeError\<close> when
  the league is \<open>None\<close>.  The association table has the pair as its primary key, so
  appending a team that is a member already adds no row.
\<close>

definition add_team_to_league :: "error option \<Rightarrow> int option \<Rightarrow> int option \<Rightarrow> store \<Rightarrow> error + store" where
  "add_team_to_league nm team lg s =
    (case lg of
       None \<Rightarrow> Inl AttributeError
     | Some lid \<Rightarrow>
         (case team of
            None \<Rightarrow> (case nm of Some e \<Rightarrow> Inl e | None \<Rightarrow> Inr s)
          | Some tid \<Rightarrow> Inr (s\<lparr>teams_leagues := List.insert (tid, lid) (teams_leagues s)\<rparr>)))"

text \<open>
  The dict \<open>leagues\<close> that the first loop of \<open>link_teams\<close> builds, and the pairs of its
  second loop in the order it visits them: the leagues in the order of the dict, the
  teams of a league in the order \<open>order\<close> gives to their set.
\<close>

definition link_groups :: "store \<Rightarrow> (int option \<times> int option list) list" where
  "link_groups s =
    fold (\<lambda>f d. setdefault_update (fixture_league s f)
            [team_of s (f_home_team_id f), team_of s (f_away_team_id f)] d)
      (fixtures s) []"

definition link_pairs ::
  "(int option \<Rightarrow> int option list \<Rightarrow> int option list) \<Rightarrow> store \<Rightarrow>
   (int option \<times> int option) list" where
  "link_pairs order s =
    concat (map (\<lambda>(lg, members). map (\<lambda>team. (team, lg)) (order lg members)) (link_groups s))"

fun link_loop :: "error option \<Rightarrow> (int option \<times> int option) list \<Rightarrow> store \<Rightarrow> store \<times> error option" where
  "link_loop nm [] s = (s, None)"
| "link_loop nm ((team, lg) # rest) s =
    (case add_team_to_league nm team lg s of
       Inl e \<Rightarrow> (s, Some e)
     | Inr s' \<Rightarrow> link_loop nm rest s')"

definition link_teams ::
  "config \<Rightarrow> (refresh_key \<Rightarrow> nat) \<Rightarrow> data_loader \<Rightarrow> data_loader \<times> error option" where
  "link_teams cfg now d =
    (case link_loop (null_member cfg) (link_pairs (set_order cfg) (data_interface d))
            (data_interface d) of
       (s, Some e) \<Rightarrow> (d\<lparr>data_interface := s\<rparr>, Some e)
     | (s, None) \<Rightarrow>
         (d\<lparr>data_interface := s,
            last_refresh_times := (last_refresh_times d)(Team_leagues := Some (now Team_leagues))\<rparr>, None))"

text \<open>
  The body of the \<open>try\<close> in \<open>load_all\<close>: the first exception ends it.  The remaining
  calls are logged only, so their value is dropped.
\<close>

definition refresh_body ::
  "config \<Rightarrow> football_api \<Rightarrow> (refresh_key \<Rightarrow> nat) \<Rightarrow> data_loader \<Rightarrow> data_loader \<times> error option" where
  "refresh_body cfg api now d =
    (case get_remaining_api_calls api 0 of
       Inl e \<Rightarrow> (d, Some e)
     | Inr before \<Rightarrow>
    (case populate_leagues cfg api now d of
       (d1, Some e) \<Rightarrow> (d1, Some e)
     | (d1, None) \<Rightarrow>
    (case populate_fixtures cfg api now d1 of
       (d2, Some e) \<Rightarrow> (d2, Some e)
     | (d2, None) \<Rightarrow>
    (case populate_teams cfg api now d2 of
       (d3, Some e) \<Rightarrow> (d3, Some e)
     | (d3, None) \<Rightarrow>
    (case link_teams cfg now d3 of
       (d4, Some e) \<Rightarrow> (d4, Some e)
     | (d4, None) \<Rightarrow>
    (case get_remaining_api_calls api 1 of
       Inl e \<Rightarrow> (d4, Some e)
     | Inr after \<Rightarrow> (d4, None)))))))"

text \<open>
  \<open>DataLoader.load_all\<close>: the loader it leaves and the exception it raises to its
  caller, if any.
\<close>

definition load_all ::
  "config \<Rightarrow> football_api \<Rightarrow> (refresh_key \<Rightarrow> nat) \<Rightarrow> data_loader \<Rightarrow> data_loader \<times> error option" where
  "load_all cfg api now d =
    (case refresh_body cfg api now d of
       (d', None) \<Rightarrow> (d', None)
     | (d', Some e) \<Rightarrow> if ignore_refresh_failures cfg then (d', None) else (d', Some e))"

section \<open>A store with one alias, for the examples\<close>

definition celtic :: team where
  "celtic = \<lparr>tm_id = 5, tm_name = ''Celtic''\<rparr>"

definition premiership :: league where
  "premiership = \<lparr>lg_id = 3, lg_name = ''Premiership'', lg_country = ''Scotland'',
     lg_season = 2019, lg_is_current = True, lg_rank = None\<rparr>"

definition cel_alias :: alias_row where
  "cel_alias = \<lparr>a_value = ''cel'', a_fixture_id = None, a_league_id = None,
     a_team_id = Some 5, a_user_id = None\<rparr>"

definition alias_store :: store where
  "alias_store = \<lparr>leagues = [premiership], fixtures = [], teams = [celtic], users = [],
     aliases = [cel_alias], teams_leagues = []\<rparr>"

section \<open>Loaders and API objects for the examples\<close>

definition demo_cfg :: config where
  "demo_cfg = \<lparr>countries = [''Scotland''], seasons = [2019], use_backup = False,
     ignore_refresh_failures = False, null_member = None, set_order = (\<lambda>lg members. members)\<rparr>"

definition demo_now :: "refresh_key \<Rightarrow> nat" where
  "demo_now k = (case k of Leagues \<Rightarrow> 101 | Fixtures \<Rightarrow> 102 | Teams \<Rightarrow> 103 | Team_leagues \<Rightarrow> 104)"

definition empty_store :: store where
  "empty_store = \<lparr>leagues = [], fixtures = [], teams = [], users = [], aliases = [], teams_leagues = []\<rparr>"

definition empty_loader :: data_loader where
  "empty_loader = \<lparr>data_interface = empty_store, last_refresh_times = (\<lambda>k. None)\<rparr>"

definition status_ok :: "(string \<times> int) list" where
  "status_ok = [(''requests_limit_day'', 100), (''requests'', 10)]"

definition api_status_down :: football_api where
  "api_status_down = \<lparr>api_get_leagues = (\<lambda>cs ss ub. Inr [premiership]),
     api_get_fixtures_by_league = (\<lambda>i ub. Inr []),
     api_get_teams_by_league = (\<lambda>i ub. Inr [celtic]),
     api_get_status = (\<lambda>n. Inl APIError)\<rparr>"

definition api_status_late :: football_api where
  "api_status_late = api_status_down\<lparr>api_get_status := (\<lambda>n. if n = 0 then Inr status_ok else Inl APIError)\<rparr>"

definition api_fixtures_down :: football_api where
  "api_fixtures_down = api_status_down\<lparr>api_get_fixtures_by_league := (\<lambda>i ub. Inl APIError),
     api_get_status := (\<lambda>n. Inr status_ok)\<rparr>"

definition loader_with_leagues :: data_loader where
  "loader_with_leagues = \<lparr>data_interface = empty_store\<lparr>leagues := [premiership]\<rparr>,
     last_refresh_times = (\<lambda>k. None)(Leagues := Some 101)\<rparr>"

definition loader_refreshed :: data_loader where
  "loader_refreshed = \<lparr>data_interface = empty_store\<lparr>leagues := [premiership], teams := [celtic]\<rparr>,
     last_refresh_times = (\<lambda>k. None)(Leagues := Some 101, Fixtures := Some 102, Teams := Some 103,
       Team_leagues := Some 104)\<rparr>"

definition rangers :: team where
  "rangers = \<lparr>tm_id = 6, tm_name = ''Rangers''\<rparr>"

definition derby :: fixture where
  "derby = \<lparr>f_id = 11, f_league_id = 3, f_date = ''2019-12-29T12:30:00+00:00'',
     f_round = ''Regular Season - 20'', f_home_team_id = 5, f_away_team_id = 6,
     f_status = ''Not Started'', f_home_goals = None, f_away_goals = None\<rparr>"

definition api_ok :: football_api where
  "api_ok = api_status_down\<lparr>api_get_status := (\<lambda>n. Inr status_ok)\<rparr>"

definition api_full :: football_api where
  "api_full = \<lparr>api_get_leagues = (\<lambda>cs ss ub. Inr [premiership]),
     api_get_fixtures_by_league = (\<lambda>i ub. if i = 3 then Inr [derby] else Inr []),
     api_get_teams_by_league = (\<lambda>i ub. Inr [celtic, rangers]),
     api_get_status = (\<lambda>n. Inr status_ok)\<rparr>"

definition store_full :: store where
  "store_full = \<lparr>leagues = [premiership], fixtures = [derby], teams = [celtic, rangers],
     users = [], aliases = [], teams_leagues = [(6, 3), (5, 3)]\<rparr>"

definition loader_full :: data_loader where
  "loader_full = \<lparr>data_interface = store_full,
     last_refresh_times = (\<lambda>k. None)(Leagues := Some 101, Fixtures := Some 102, Teams := Some 103,
       Team_leagues := Some 104)\<rparr>"

definition old_league :: league where
  "old_league = \<lparr>lg_id = 1, lg_name = ''Premiership'', lg_country = ''Scotland'',
     lg_season = 2018, lg_is_current = False, lg_rank = None\<rparr>"

definition old_fixture :: fixture where
  "old_fixture = \<lparr>f_id = 10, f_league_id = 1, f_date = ''2018-12-29T12:30:00+00:00'',
     f_round = ''Regular Season - 20'', f_home_team_id = 5, f_away_team_id = 6,
     f_status = ''Match Finished'', f_home_goals = Some 1, f_away_goals = Some 0\<rparr>"

definition old_store :: store where
  "old_store = \<lparr>leagues = [old_league], fixtures = [old_fixture], teams = [celtic, rangers],
     users = [], aliases = [], teams_leagues = []\<rparr>"

definition old_loader :: data_loader where
  "old_loader = \<lparr>data_interface = old_store, last_refresh_times = (\<lambda>k. None)\<rparr>"

definition old_refreshed :: store where
  "old_refreshed = \<lparr>leagues = [old_league, premiership], fixtures = [old_fixture],
     teams = [celtic, rangers], users = [], aliases = [], teams_leagues = [(6, 1), (5, 1)]\<rparr>"

definition old_refreshed_loader :: data_loader where
  "old_refreshed_loader = \<lparr>data_interface = old_refreshed,
     last_refresh_times = (\<lambda>k. None)(Leagues := Some 101, Fixtures := Some 102, Teams := Some 103,
       Team_leagues := Some 104)\<rparr>"

text \<open>
  A store in which the fixture 10 refers to the team 6 that has no row, and two
  configurations in which a null member raises and which differ in the order of
  iterating a set only.
\<close>

definition torn_store :: store where
  "torn_store = \<lparr>leagues = [old_league], fixtures = [old_fixture], teams = [celtic],
     users = [], aliases = [], teams_leagues = []\<rparr>"

definition torn_loader :: data_loader where
  "torn_loader = \<lparr>data_interface = torn_store, last_refresh_times = (\<lambda>k. None)\<rparr>"

definition cfg_forward :: config where
  "cfg_forward = demo_cfg\<lparr>null_member := Some (OtherError ''FlushError'')\<rparr>"

definition cfg_backward :: config where
  "cfg_backward = cfg_forward\<lparr>set_order := (\<lambda>lg members. rev members)\<rparr>"

definition torn_first :: data_loader where
  "torn_first = \<lparr>data_interface = torn_store\<lparr>leagues := [old_league, premiership]\<rparr>,
     last_refresh_times = (\<lambda>k. None)(Leagues := Some 101, Fixtures := Some 102, Teams := Some 103)\<rparr>"

definition torn_linked :: data_loader where
  "torn_linked = torn_first\<lparr>data_interface := (data_interface torn_first)\<lparr>teams_leagues := [(5, 1)]\<rparr>\<rparr>"

section \<open>Auxiliary notions for the properties\<close>

text \<open>
  The merge of the legacy scores read as an update of a finite map: the entry a legacy
  record yields, the sum of two entries, and the effect of one legacy record.
\<close>

definition to_info :: "int \<Rightarrow> int \<Rightarrow> legacy_entry \<Rightarrow> user_info" where
  "to_info ps pr v = \<lparr>points = (l_scores v * ps) + (l_results v * pr), results = l_results v, scores = l_scores v\<rparr>"

definition add_info :: "user_info \<Rightarrow> user_info \<Rightarrow> user_info" where
  "add_info v d = \<lparr>points = points v + points d, results = results v + results d, scores = scores v + scores d\<rparr>"

definition merge_step :: "int \<Rightarrow> int \<Rightarrow> string \<times> legacy_entry \<Rightarrow> (string \<rightharpoonup> user_info) \<Rightarrow> (string \<rightharpoonup> user_info)" where
  "merge_step ps pr e m = m(fst e \<mapsto> (case m (fst e) of None \<Rightarrow> to_info ps pr (snd e) | Some w \<Rightarrow> add_info w (to_info ps pr (snd e))))"


text \<open>What \<open>load_all\<close> raises to its caller when its body raised \<open>e\<close>.\<close>

definition on_fail :: "config \<Rightarrow> error \<Rightarrow> error option" where
  "on_fail cfg e = (if ignore_refresh_failures cfg then None else Some e)"

text \<open>
  What a merge has to satisfy for the bulk merges to be idempotent: the merged row has
  the key of the item, merging a row into itself changes nothing, and a later merge
  overrides an earlier one.
\<close>

definition copies :: "('a \<Rightarrow> 'k) \<Rightarrow> ('a \<Rightarrow> 'a \<Rightarrow> 'a) \<Rightarrow> bool" where
  "copies key cp = ((\<forall>x r. key (cp x r) = key x) \<and> (\<forall>x. cp x x = x) \<and> (\<forall>x y r. cp y (cp x r) = cp y r))"


text \<open>
  The items fetched for a list of leagues up to the first failing request, and that
  failure; the pairs the link loop inserts up to its first failure, and that failure.
\<close>

fun fetched :: "(int \<Rightarrow> error + 'a list) \<Rightarrow> league list \<Rightarrow> 'a list" where
  "fetched get [] = []"
| "fetched get (l # ls) = (case get (lg_id l) of Inl e \<Rightarrow> [] | Inr xs \<Rightarrow> xs @ fetched get ls)"

fun fetch_error :: "(int \<Rightarrow> error + 'a list) \<Rightarrow> league list \<Rightarrow> error option" where
  "fetch_error get [] = None"
| "fetch_error get (l # ls) = (case get (lg_id l) of Inl e \<Rightarrow> Some e | Inr xs \<Rightarrow> fetch_error get ls)"

fun linked :: "error option \<Rightarrow> (int option \<times> int option) list \<Rightarrow> (int \<times> int) list" where
  "linked nm [] = []"
| "linked nm ((team, lg) # rest) =
    (case lg of
       None \<Rightarrow> []
     | Some lid \<Rightarrow>
         (case team of
            None \<Rightarrow> (case nm of Some e \<Rightarrow> [] | None \<Rightarrow> linked nm rest)
          | Some tid \<Rightarrow> (tid, lid) # linked nm rest))"

fun link_error :: "error option \<Rightarrow> (int option \<times> int option) list \<Rightarrow> error option" where
  "link_error nm [] = None"
| "link_error nm ((team, lg) # rest) =
    (case lg of
       None \<Rightarrow> Some AttributeError
     | Some lid \<Rightarrow>
         (case team of
            None \<Rightarrow> (case nm of Some e \<Rightarrow> Some e | None \<Rightarrow> link_error nm rest)
          | Some tid \<Rightarrow> link_error nm rest))"

text \<open>
  The refresh read on the store alone, without the time stamps: the stages before the
  link stage, the link stage with the last reading of the plan status, and the whole
  body of \<open>load_all\<close>.
\<close>

definition before_link :: "config \<Rightarrow> football_api \<Rightarrow> store \<Rightarrow> store \<times> error option" where
  "before_link cfg api s =
    (case get_remaining_api_calls api 0 of
       Inl e \<Rightarrow> (s, Some e)
     | Inr before \<Rightarrow>
         (case api_get_leagues api (countries cfg) (seasons cfg) (use_backup cfg) of
            Inl e \<Rightarrow> (s, Some e)
          | Inr ls \<Rightarrow>
              (case fixtures_loop api (use_backup cfg)
                      (get_current_leagues (fold add_or_update_league ls s))
                      (fold add_or_update_league ls s) of
                 (s2, Some e) \<Rightarrow> (s2, Some e)
               | (s2, None) \<Rightarrow> teams_loop api (use_backup cfg) (get_current_leagues s2) s2)))"

definition after_teams :: "config \<Rightarrow> football_api \<Rightarrow> store \<Rightarrow> store \<times> error option" where
  "after_teams cfg api s3 =
    (case link_loop (null_member cfg) (link_pairs (set_order cfg) s3) s3 of
       (s4, Some e) \<Rightarrow> (s4, Some e)
     | (s4, None) \<Rightarrow>
         (case get_remaining_api_calls api 1 of
            Inl e \<Rightarrow> (s4, Some e)
          | Inr after \<Rightarrow> (s4, None)))"

definition store_refresh :: "config \<Rightarrow> football_api \<Rightarrow> store \<Rightarrow> store \<times> error option" where
  "store_refresh cfg api s =
    (case before_link cfg api s of
       (s3, Some e) \<Rightarrow> (s3, Some e)
     | (s3, None) \<Rightarrow> after_teams cfg api s3)"

text \<open>
  An order of iteration lists the members of the set it is given.  A store makes the
  link stage raise when a fixture refers to a league that has no row, or, where a null
  member raises, to a team that has no row.  The rows of a league in the table of team
  and league pairs.
\<close>

definition enumerates :: "('k \<Rightarrow> 'a list \<Rightarrow> 'a list) \<Rightarrow> bool" where
  "enumerates order = (\<forall>lg members. set (order lg members) = set members)"

definition dangling :: "config \<Rightarrow> store \<Rightarrow> bool" where
  "dangling cfg s =
    list_ex (\<lambda>f. fixture_league s f = None \<or>
        (case null_member cfg of
           None \<Rightarrow> False
         | Some e \<Rightarrow> team_of s (f_home_team_id f) = None \<or> team_of s (f_away_team_id f) = None))
      (fixtures s)"

definition rows_of :: "int \<Rightarrow> (int \<times> int) list \<Rightarrow> (int \<times> int) list" where
  "rows_of c pairs = filter (\<lambda>p. snd p = c) pairs"

text \<open>No table has two rows with the same primary key.\<close>

definition unique_keys :: "store \<Rightarrow> bool" where
  "unique_keys s = (distinct (map lg_id (leagues s)) \<and> distinct (map f_id (fixtures s)) \<and>
     distinct (map tm_id (teams s)) \<and> distinct (teams_leagues s))"


section \<open>Properties of the scoring\<close>

text \<open>
  Claim C3.  For a played match (both goal counts known) the outcome of a prediction
  is decided in this order: the predicted score equal to the actual score gives
  \<open>SCORE\<close> (exact); otherwise the same sign of home goals minus away goals in the
  prediction and in the match gives \<open>RESULT\<close>; otherwise \<open>INCORRECT\<close>.  No
  exception is raised.
\<close>

theorem determine_outcome_played:
  assumes "f_home_goals f = Some fh" and "f_away_goals f = Some fa"
  shows "determine_outcome p f =
    Inr (if p_home_goals p = fh \<and> p_away_goals p = fa then SCORE
         else if sgn (p_home_goals p - p_away_goals p) = sgn (fh - fa) then RESULT
         else INCORRECT)"
  using assms
  by (auto simp: determine_outcome_def py_eq_goals_def py_gt_def py_lt_def sgn_if)

text \<open>
  The table of the specification: 2-1 predicted 2-1 is exact, 2-1 predicted 3-1 is a
  result, 1-1 predicted 0-0 is a result, 2-1 predicted 1-2 is incorrect.
\<close>

theorem determine_outcome_played_witness:
  "determine_outcome (predicted 2 1) (played 2 1) = Inr SCORE \<and>
   determine_outcome (predicted 3 1) (played 2 1) = Inr RESULT \<and>
   determine_outcome (predicted 0 0) (played 1 1) = Inr RESULT \<and>
   determine_outcome (predicted 1 2) (played 2 1) = Inr INCORRECT"
  using determine_outcome_played [of "played 2 1" 2 1 "predicted 2 1"]
        determine_outcome_played [of "played 2 1" 2 1 "predicted 3 1"]
        determine_outcome_played [of "played 1 1" 1 1 "predicted 0 0"]
        determine_outcome_played [of "played 2 1" 2 1 "predicted 1 2"]
  by (simp add: played_def predicted_def)

subsection \<open>The merge as a map update\<close>

lemma map_of_add_existing:
  "map_of (add_existing u d fs) k = (if k = u then map_option (\<lambda>v. add_info v d) (map_of fs u) else map_of fs k)"
  by (induction fs) (auto simp: add_info_def)

lemma map_of_merge_entry: "map_of (merge_entry ps pr e fs) = merge_step ps pr e (map_of fs)"
proof (cases "fst e \<in> set (map fst fs)")
  case True
  then obtain w where w: "map_of fs (fst e) = Some w"
    by (metis map_of_eq_None_iff not_Some_eq set_map)
  show ?thesis
    using True w by (auto simp: merge_entry_def Let_def merge_step_def map_of_add_existing to_info_def fun_eq_iff)
next
  case False
  then have "map_of fs (fst e) = None" by (simp add: map_of_eq_None_iff)
  then show ?thesis
    using False by (auto simp: merge_entry_def Let_def merge_step_def to_info_def fun_eq_iff map_add_def split: option.splits)
qed

lemma map_of_merge_scores: "map_of (merge_scores ps pr spfl fs) = fold (merge_step ps pr) spfl (map_of fs)"
  unfolding merge_scores_def
  by (induction spfl arbitrary: fs) (simp_all add: map_of_merge_entry)

lemma merge_step_commute: "merge_step ps pr a (merge_step ps pr b m) = merge_step ps pr b (merge_step ps pr a m)"
  by (auto simp: merge_step_def fun_eq_iff add_info_def to_info_def split: option.splits)

lemma fold_merge_step_commute:
  "fold (merge_step ps pr) xs (merge_step ps pr a m) = merge_step ps pr a (fold (merge_step ps pr) xs m)"
proof (induction xs arbitrary: m)
  case Nil
  show ?case by simp
next
  case (Cons x xs)
  have "fold (merge_step ps pr) (x # xs) (merge_step ps pr a m) =
        fold (merge_step ps pr) xs (merge_step ps pr a (merge_step ps pr x m))"
    by (simp add: merge_step_commute [of ps pr x a m])
  also have "\<dots> = merge_step ps pr a (fold (merge_step ps pr) xs (merge_step ps pr x m))"
    by (rule Cons.IH)
  finally show ?case by simp
qed

lemma fold_merge_step_swap:
  "fold (merge_step ps pr) xs (fold (merge_step ps pr) ys m) = fold (merge_step ps pr) ys (fold (merge_step ps pr) xs m)"
  by (induction ys arbitrary: m) (simp_all add: fold_merge_step_commute)

lemma fold_merge_step_lookup:
  "distinct (map fst spfl) \<Longrightarrow>
   fold (merge_step ps pr) spfl m u =
     (case map_of spfl u of None \<Rightarrow> m u
      | Some v \<Rightarrow> (case m u of None \<Rightarrow> Some (to_info ps pr v) | Some w \<Rightarrow> Some (add_info w (to_info ps pr v))))"
proof (induction spfl arbitrary: m)
  case Nil
  then show ?case by simp
next
  case (Cons e spfl)
  obtain k v where e: "e = (k, v)" by (cases e)
  from Cons.prems e have k: "map_of spfl k = None" and d: "distinct (map fst spfl)"
    by (auto simp: map_of_eq_None_iff)
  show ?case
    using Cons.IH [OF d, of "merge_step ps pr e m"] k
    by (auto simp: e merge_step_def split: option.splits)
qed

text \<open>
  Claim C7.  Merging two legacy maps into a leaderboard gives the same totals per name
  (points, exact count, result count) in either order.  A name of the legacy map whose
  keys are distinct gets its entry added to the one the leaderboard has, or carried
  over when the leaderboard has none; every other name keeps what it had.
\<close>

theorem leaderboard_merge_commutative:
  "map_of (merge_scores ps pr a (merge_scores ps pr b fs)) =
     map_of (merge_scores ps pr b (merge_scores ps pr a fs)) \<and>
   (distinct (map fst a) \<longrightarrow>
     map_of (merge_scores ps pr a fs) u =
       (case map_of a u of
          None \<Rightarrow> map_of fs u
        | Some v \<Rightarrow>
            (case map_of fs u of
               None \<Rightarrow> Some (to_info ps pr v)
             | Some w \<Rightarrow> Some (add_info w (to_info ps pr v)))))"
  by (simp add: map_of_merge_scores fold_merge_step_swap fold_merge_step_lookup)

theorem leaderboard_merge_commutative_witness:
  "distinct (map fst [(''ann#1'', \<lparr>l_scores = 1, l_results = 2\<rparr>), (''bob#2'', \<lparr>l_scores = 0, l_results = 4\<rparr>)]) \<and>
   map_of (merge_scores 3 1 [(''ann#1'', \<lparr>l_scores = 1, l_results = 2\<rparr>), (''bob#2'', \<lparr>l_scores = 0, l_results = 4\<rparr>)]
             [(''ann#1'', \<lparr>points = 4, results = 1, scores = 1\<rparr>)]) ''ann#1''
     = Some \<lparr>points = 9, results = 3, scores = 2\<rparr>"
  using leaderboard_merge_commutative [of 3 1
      "[(''ann#1'', \<lparr>l_scores = 1, l_results = 2\<rparr>), (''bob#2'', \<lparr>l_scores = 0, l_results = 4\<rparr>)]"
      "[]" "[(''ann#1'', \<lparr>points = 4, results = 1, scores = 1\<rparr>)]" "''ann#1''"]
  by (simp add: to_info_def add_info_def)

section \<open>Properties of the aliases\<close>

subsection \<open>Decimal text and case folding\<close>

lemma is_digit_char_of: "(d::nat) < 10 \<Longrightarrow> is_digit (char_of (48 + d))"
  by (simp add: is_digit_def Let_def)

lemma digit_val_char_of: "(d::nat) < 10 \<Longrightarrow> digit_val (char_of (48 + d)) = d"
  by (simp add: digit_val_def)

lemma text_of_nat_digits: "list_all is_digit (text_of_nat n)"
proof (induction n rule: text_of_nat.induct)
  case (1 n)
  show ?case
  proof (cases "n < 10")
    case True
    then show ?thesis by (subst text_of_nat.simps) (simp add: is_digit_char_of)
  next
    case False
    then show ?thesis using 1 by (subst text_of_nat.simps) (simp add: is_digit_char_of)
  qed
qed

lemma text_of_nat_nonempty: "text_of_nat n \<noteq> []"
  by (subst text_of_nat.simps) simp

lemma nat_of_digits_snoc: "nat_of_digits (ds @ [c]) = 10 * nat_of_digits ds + digit_val c"
  by (simp add: nat_of_digits_def)

lemma nat_of_digits_text_of_nat: "nat_of_digits (text_of_nat n) = n"
proof (induction n rule: text_of_nat.induct)
  case (1 n)
  show ?case
  proof (cases "n < 10")
    case True
    then show ?thesis by (subst text_of_nat.simps) (simp add: nat_of_digits_def digit_val_char_of)
  next
    case False
    then have "nat_of_digits (text_of_nat n) = 10 * nat_of_digits (text_of_nat (n div 10)) + n mod 10"
      by (subst text_of_nat.simps) (simp add: nat_of_digits_snoc digit_val_char_of)
    then show ?thesis using 1 False by simp
  qed
qed

lemma is_digit_not_minus: "is_digit c \<Longrightarrow> c \<noteq> CHR ''-''"
  by (auto simp: is_digit_def Let_def)

lemma int_of_text_text_of_int: "0 \<le> t \<Longrightarrow> int_of_text (text_of_int t) = Some t"
proof -
  assume t: "0 \<le> t"
  obtain c cs where cs: "text_of_nat (nat t) = c # cs"
    using text_of_nat_nonempty [of "nat t"] by (cases "text_of_nat (nat t)") auto
  have d: "list_all is_digit (c # cs)" using text_of_nat_digits [of "nat t"] cs by simp
  then have "c \<noteq> CHR ''-''" by (simp add: is_digit_not_minus)
  then have "int_of_text (c # cs) = Some (int (nat_of_digits (c # cs)))"
    using d by (simp add: int_of_text_def)
  then show ?thesis using t cs nat_of_digits_text_of_nat [of "nat t"] by (simp add: text_of_int_def)
qed

lemma lower_char_digit: "is_digit (lower_char c) \<Longrightarrow> is_digit c"
  by (cases "65 \<le> (of_char c :: nat) \<and> (of_char c :: nat) \<le> 90")
     (auto simp: lower_char_def is_digit_def Let_def)

lemma lower_char_of_digit: "is_digit c \<Longrightarrow> lower_char c = c"
  by (auto simp: lower_char_def is_digit_def Let_def)

lemma nocase_digits: "list_all is_digit d \<Longrightarrow> nocase d = d"
  by (induction d) (auto simp: nocase_def lower_char_of_digit)

lemma nocase_all_digits: "list_all is_digit (nocase v) \<Longrightarrow> list_all is_digit v"
  by (induction v) (auto simp: nocase_def lower_char_digit)

lemma get_alias_digits_None:
  assumes "\<forall>b \<in> set (aliases s). \<not> list_all is_digit (a_value b)" and "list_all is_digit d"
  shows "get_alias s d = None"
proof -
  have "\<And>b. b \<in> set (aliases s) \<Longrightarrow> nocase (a_value b) \<noteq> nocase d"
  proof
    fix b assume b: "b \<in> set (aliases s)" and e: "nocase (a_value b) = nocase d"
    from e assms(2) have "list_all is_digit (nocase (a_value b))" by (simp add: nocase_digits)
    then have "list_all is_digit (a_value b)" by (rule nocase_all_digits)
    with assms(1) b show False by blast
  qed
  then show ?thesis by (auto simp: get_alias_def find_None_iff)
qed

lemma merge_row_set: "set (merge_row key cp x rs) \<subseteq> insert x (set rs \<union> cp x ` set rs)"
  by (induction rs) auto

text \<open>
  \<open>_set_alias\<close> keeps the alias table free of values made of digits only: the
  validation refuses them before anything is written.
\<close>

lemma set_alias_keeps_non_numeric:
  assumes "\<forall>b \<in> set (aliases s). \<not> list_all is_digit (a_value b)"
  shows "\<forall>b \<in> set (aliases (fst (set_alias s k v ident ow))). \<not> list_all is_digit (a_value b)"
proof (cases "list_all is_digit v")
  case True
  then show ?thesis using assms by (simp add: set_alias_def validate_and_get_alias_ref_def)
next
  case False
  have new: "\<And>e r. a_value (cp_alias (new_alias k v e) r) = v" "\<And>e. a_value (new_alias k v e) = v"
    by (simp_all add: cp_alias_def new_alias_def)
  have "\<And>e b. b \<in> set (aliases (add_or_update_alias (new_alias k v e) s)) \<Longrightarrow>
      \<not> list_all is_digit (a_value b)"
  proof -
    fix e b assume "b \<in> set (aliases (add_or_update_alias (new_alias k v e) s))"
    then have "b \<in> insert (new_alias k v e) (set (aliases s) \<union> cp_alias (new_alias k v e) ` set (aliases s))"
      using merge_row_set [of "nocase \<circ> a_value" cp_alias "new_alias k v e" "aliases s"]
      by (auto simp: add_or_update_alias_def)
    then show "\<not> list_all is_digit (a_value b)" using assms False new by auto
  qed
  then show ?thesis
    using assms
    by (auto simp: set_alias_def validate_and_get_alias_ref_def split: option.splits sum.splits)
qed

subsection \<open>Resolving an identifier or alias\<close>

text \<open>
  Claim C5.  In a store whose aliases are not made of digits only (what \<open>_set_alias\<close>
  maintains), take an alias bound to an entity of the given class whose identifier is
  not negative.  Then \<open>get\<close> with the alias value and \<open>get\<close> with the decimal text of
  the identifier return that same entity: the alias lookup comes first, the primary key
  is the fallback.
\<close>

theorem get_by_alias_same_as_by_id:
  assumes "get_alias s v = Some a" and "alias_ref k a = Some t"
    and "by_pk s k t = Some e" and "0 \<le> t"
    and "\<forall>b \<in> set (aliases s). \<not> list_all is_digit (a_value b)"
  shows "get_entity s k v = Some e \<and> get_entity s k (text_of_int t) = Some e"
proof -
  have 1: "get_entity s k v = Some e"
    using assms(1-3) by (simp add: get_entity_def related_def)
  have "list_all is_digit (text_of_int t)"
    using assms(4) by (simp add: text_of_int_def text_of_nat_digits)
  then have "get_alias s (text_of_int t) = None"
    using assms(5) by (rule get_alias_digits_None [rotated])
  then have 2: "get_entity s k (text_of_int t) = Some e"
    using assms(3,4) by (simp add: get_entity_def by_pk_text_def int_of_text_text_of_int)
  from 1 2 show ?thesis ..
qed


lemma alias_store_get_alias: "get_alias alias_store ''CEL'' = Some cel_alias" by code_simp
lemma alias_store_ref: "alias_ref KTeam cel_alias = Some 5" by code_simp
lemma alias_store_by_pk: "by_pk alias_store KTeam 5 = Some (ETeam celtic)" by code_simp
lemma alias_store_non_numeric: "\<forall>b \<in> set (aliases alias_store). \<not> list_all is_digit (a_value b)" by code_simp
lemma text_of_int_5: "text_of_int 5 = ''5''" by code_simp


theorem get_by_alias_same_as_by_id_witness:
  "get_alias alias_store ''CEL'' = Some cel_alias \<and> alias_ref KTeam cel_alias = Some 5 \<and>
   by_pk alias_store KTeam 5 = Some (ETeam celtic) \<and> (0::int) \<le> 5 \<and>
   map (\<lambda>b. list_all is_digit (a_value b)) (aliases alias_store) = [False] \<and>
   get_entity alias_store KTeam ''CEL'' = Some (ETeam celtic) \<and>
   get_entity alias_store KTeam ''5'' = Some (ETeam celtic)"
proof -
  have "map (\<lambda>b. list_all is_digit (a_value b)) (aliases alias_store) = [False]"
    by code_simp
  then show ?thesis
    using get_by_alias_same_as_by_id [OF alias_store_get_alias alias_store_ref alias_store_by_pk _
        alias_store_non_numeric]
      alias_store_get_alias alias_store_ref alias_store_by_pk text_of_int_5
    by simp
qed

text \<open>
  Claim C10.  The empty alias value passes the all-digits test vacuously, so
  \<open>_set_alias\<close> raises "An alias can't be a number." for every class, identifier and
  overwrite flag and leaves the store as it was.
\<close>

theorem set_alias_empty_rejected:
  "set_alias s k [] ident overwrite = (s, Inl (CommandDataError AliasIsNumber))"
  by (simp add: set_alias_def validate_and_get_alias_ref_def)

text \<open>
  Claim C6, evaluated where the code departs from it.  The alias \<open>cel\<close> refers to the
  team 5.  Setting it for league 3 without \<open>overwrite\<close> fails and changes nothing, but
  the error names \<open>None\<close> as the existing reference, not the team.  With \<open>overwrite\<close>
  the alias row gets the league and keeps the team, and \<open>get\<close> for a team still
  resolves \<open>cel\<close> to team 5.
\<close>

theorem set_alias_other_kind:
  "get_alias alias_store ''cel'' = Some cel_alias \<and>
   related alias_store KTeam cel_alias = Some (ETeam celtic) \<and>
   set_alias alias_store KLeague ''cel'' ''3'' False =
     (alias_store, Inl (CommandDataError (AliasAlreadyExists ''cel'' None))) \<and>
   aliases (fst (set_alias alias_store KLeague ''cel'' ''3'' True)) =
     [\<lparr>a_value = ''cel'', a_fixture_id = None, a_league_id = Some 3,
       a_team_id = Some 5, a_user_id = None\<rparr>] \<and>
   get_entity (fst (set_alias alias_store KLeague ''cel'' ''3'' True)) KTeam ''cel'' = Some (ETeam celtic)"
  by code_simp



section \<open>Properties of the refresh\<close>

subsection \<open>Time stamps of the stages\<close>

lemma populate_leagues_times:
  "populate_leagues cfg api now d = (d', r) \<Longrightarrow>
   last_refresh_times d' =
     (case r of Some e \<Rightarrow> last_refresh_times d
      | None \<Rightarrow> (last_refresh_times d)(Leagues := Some (now Leagues)))"
  by (auto simp: populate_leagues_def split: sum.splits)

lemma populate_fixtures_times:
  "populate_fixtures cfg api now d = (d', r) \<Longrightarrow>
   last_refresh_times d' =
     (case r of Some e \<Rightarrow> last_refresh_times d
      | None \<Rightarrow> (last_refresh_times d)(Fixtures := Some (now Fixtures)))"
  by (auto simp: populate_fixtures_def split: prod.splits option.splits)

lemma populate_teams_times:
  "populate_teams cfg api now d = (d', r) \<Longrightarrow>
   last_refresh_times d' =
     (case r of Some e \<Rightarrow> last_refresh_times d
      | None \<Rightarrow> (last_refresh_times d)(Teams := Some (now Teams)))"
  by (auto simp: populate_teams_def split: prod.splits option.splits)

lemma link_teams_times:
  "link_teams cfg now d = (d', r) \<Longrightarrow>
   last_refresh_times d' =
     (case r of Some e \<Rightarrow> last_refresh_times d
      | None \<Rightarrow> (last_refresh_times d)(Team_leagues := Some (now Team_leagues)))"
  by (auto simp: link_teams_def split: prod.splits option.splits)

lemma populate_leagues_fails_store:
  "populate_leagues cfg api now d = (d', Some e) \<Longrightarrow> d' = d"
  by (auto simp: populate_leagues_def split: sum.splits)

lemmas demo_defs = demo_cfg_def demo_now_def empty_store_def empty_loader_def status_ok_def
  api_status_down_def api_status_late_def api_fixtures_down_def loader_with_leagues_def
  loader_refreshed_def premiership_def celtic_def

lemmas loader_defs = get_remaining_api_calls_def populate_leagues_def populate_fixtures_def
  populate_teams_def link_teams_def link_pairs_def link_groups_def get_current_leagues_def
  add_or_update_league_def add_or_update_fixture_def add_or_update_team_def

lemma demo_status: "get_remaining_api_calls api_fixtures_down 0 = Inr 90"
  by (simp add: demo_defs loader_defs)

lemma demo_leagues: "populate_leagues demo_cfg api_fixtures_down demo_now empty_loader = (loader_with_leagues, None)"
  by (simp add: demo_defs loader_defs)

lemma demo_fixtures: "populate_fixtures demo_cfg api_fixtures_down demo_now loader_with_leagues = (loader_with_leagues, Some APIError)"
  by (simp add: demo_defs loader_defs)

subsection \<open>Failure of a stage\<close>

text \<open>
  Claim C4.  Let the first reading of the plan status succeed.  When a stage raises,
  \<open>load_all\<close> ends with the loader that stage left: no later stage runs.  The exception
  reaches the caller unless \<open>ignore_refresh_failures\<close> is set, and then it is dropped.
  The stages before the failing one have set their time stamps, the failing stage and
  the ones after it keep the time stamps they had.
\<close>

theorem load_all_stage_failure:
  assumes "get_remaining_api_calls api 0 = Inr n"
  shows
   "(populate_leagues cfg api now d = (d1, Some e) \<longrightarrow>
       load_all cfg api now d = (d1, on_fail cfg e) \<and> d1 = d) \<and>
    (populate_leagues cfg api now d = (d1, None) \<and>
     populate_fixtures cfg api now d1 = (d2, Some e) \<longrightarrow>
       load_all cfg api now d = (d2, on_fail cfg e) \<and>
       last_refresh_times d2 = (last_refresh_times d)(Leagues := Some (now Leagues))) \<and>
    (populate_leagues cfg api now d = (d1, None) \<and>
     populate_fixtures cfg api now d1 = (d2, None) \<and>
     populate_teams cfg api now d2 = (d3, Some e) \<longrightarrow>
       load_all cfg api now d = (d3, on_fail cfg e) \<and>
       last_refresh_times d3 =
         (last_refresh_times d)(Leagues := Some (now Leagues), Fixtures := Some (now Fixtures))) \<and>
    (populate_leagues cfg api now d = (d1, None) \<and>
     populate_fixtures cfg api now d1 = (d2, None) \<and>
     populate_teams cfg api now d2 = (d3, None) \<and>
     link_teams cfg now d3 = (d4, Some e) \<longrightarrow>
       load_all cfg api now d = (d4, on_fail cfg e) \<and>
       last_refresh_times d4 =
         (last_refresh_times d)(Leagues := Some (now Leagues), Fixtures := Some (now Fixtures),
            Teams := Some (now Teams)))"
proof (intro conjI impI)
  assume "populate_leagues cfg api now d = (d1, Some e)"
  then show "load_all cfg api now d = (d1, on_fail cfg e)" "d1 = d"
    using assms by (simp_all add: load_all_def refresh_body_def on_fail_def populate_leagues_fails_store)
next
  assume a: "populate_leagues cfg api now d = (d1, None) \<and> populate_fixtures cfg api now d1 = (d2, Some e)"
  then show "load_all cfg api now d = (d2, on_fail cfg e)"
    using assms by (simp add: load_all_def refresh_body_def on_fail_def)
  from a show "last_refresh_times d2 = (last_refresh_times d)(Leagues := Some (now Leagues))"
    using populate_leagues_times [of cfg api now d d1 None]
      populate_fixtures_times [of cfg api now d1 d2 "Some e"] by simp
next
  assume a: "populate_leagues cfg api now d = (d1, None) \<and>
     populate_fixtures cfg api now d1 = (d2, None) \<and> populate_teams cfg api now d2 = (d3, Some e)"
  then show "load_all cfg api now d = (d3, on_fail cfg e)"
    using assms by (simp add: load_all_def refresh_body_def on_fail_def)
  from a show "last_refresh_times d3 =
         (last_refresh_times d)(Leagues := Some (now Leagues), Fixtures := Some (now Fixtures))"
    using populate_leagues_times [of cfg api now d d1 None]
      populate_fixtures_times [of cfg api now d1 d2 None]
      populate_teams_times [of cfg api now d2 d3 "Some e"] by simp
next
  assume a: "populate_leagues cfg api now d = (d1, None) \<and>
     populate_fixtures cfg api now d1 = (d2, None) \<and>
     populate_teams cfg api now d2 = (d3, None) \<and> link_teams cfg now d3 = (d4, Some e)"
  then show "load_all cfg api now d = (d4, on_fail cfg e)"
    using assms by (simp add: load_all_def refresh_body_def on_fail_def)
  from a show "last_refresh_times d4 =
         (last_refresh_times d)(Leagues := Some (now Leagues), Fixtures := Some (now Fixtures),
            Teams := Some (now Teams))"
    using populate_leagues_times [of cfg api now d d1 None]
      populate_fixtures_times [of cfg api now d1 d2 None]
      populate_teams_times [of cfg api now d2 d3 None]
      link_teams_times [of cfg now d3 d4 "Some e"] by simp
qed

theorem load_all_stage_failure_witness:
  "get_remaining_api_calls api_fixtures_down 0 = Inr 90 \<and>
   populate_leagues demo_cfg api_fixtures_down demo_now empty_loader = (loader_with_leagues, None) \<and>
   populate_fixtures demo_cfg api_fixtures_down demo_now loader_with_leagues = (loader_with_leagues, Some APIError) \<and>
   load_all demo_cfg api_fixtures_down demo_now empty_loader = (loader_with_leagues, Some APIError) \<and>
   last_refresh_times loader_with_leagues Leagues = Some 101 \<and>
   last_refresh_times loader_with_leagues Fixtures = None \<and>
   last_refresh_times loader_with_leagues Teams = None \<and>
   last_refresh_times loader_with_leagues Team_leagues = None"
proof -
  have "load_all demo_cfg api_fixtures_down demo_now empty_loader = (loader_with_leagues, on_fail demo_cfg APIError)"
    using load_all_stage_failure [OF demo_status, of demo_cfg demo_now empty_loader
        loader_with_leagues APIError loader_with_leagues] demo_leagues demo_fixtures
    by blast
  moreover have "on_fail demo_cfg APIError = Some APIError"
    by (simp add: on_fail_def demo_cfg_def)
  moreover have "last_refresh_times loader_with_leagues Leagues = Some 101"
    "last_refresh_times loader_with_leagues Fixtures = None"
    "last_refresh_times loader_with_leagues Teams = None"
    "last_refresh_times loader_with_leagues Team_leagues = None"
    by (simp_all add: loader_with_leagues_def)
  ultimately show ?thesis using demo_status demo_leagues demo_fixtures by simp
qed

subsection \<open>Failure of the plan status\<close>






subsection \<open>Bulk merges\<close>

lemma copies_league: "copies lg_id cp_league"
  by (simp add: copies_def cp_league_def)

lemma copies_all: "copies key cp_all"
  by (simp add: copies_def cp_all_def)

lemma merge_row_keys:
  "copies key cp \<Longrightarrow> key ` set (merge_row key cp x T) = insert (key x) (key ` set T)"
  by (induction T) (auto simp: copies_def)

lemma fold_merge_row_keys:
  "copies key cp \<Longrightarrow> key ` set (fold (merge_row key cp) xs T) = key ` set xs \<union> key ` set T"
  by (induction xs arbitrary: T) (auto simp: merge_row_keys)

lemma merge_row_absent: "key x \<notin> key ` set T \<Longrightarrow> merge_row key cp x (T @ U) = T @ merge_row key cp x U"
  by (induction T) auto

lemma merge_row_present: "key x \<in> key ` set T \<Longrightarrow> merge_row key cp x (T @ U) = merge_row key cp x T @ U"
  by (induction T) auto

lemma fold_merge_row_present:
  "copies key cp \<Longrightarrow> key ` set xs \<subseteq> key ` set T \<Longrightarrow>
   fold (merge_row key cp) xs (T @ U) = fold (merge_row key cp) xs T @ U"
proof (induction xs arbitrary: T)
  case Nil
  show ?case by simp
next
  case (Cons x xs)
  have "key ` set xs \<subseteq> key ` set (merge_row key cp x T)"
    using Cons.prems by (auto simp: merge_row_keys)
  then show ?case
    using Cons.prems Cons.IH [of "merge_row key cp x T"] by (simp add: merge_row_present)
qed

lemma merge_row_swap:
  "copies key cp \<Longrightarrow> key x \<noteq> key y \<Longrightarrow> key x \<in> key ` set T \<Longrightarrow>
   merge_row key cp y (merge_row key cp x T) = merge_row key cp x (merge_row key cp y T)"
  by (induction T) (auto simp: copies_def)

lemma merge_row_overwrite:
  "copies key cp \<Longrightarrow> key x = key y \<Longrightarrow> key x \<in> key ` set T \<Longrightarrow>
   merge_row key cp y (merge_row key cp x T) = merge_row key cp y T"
  by (induction T) (auto simp: copies_def)

lemma merge_row_absorb:
  assumes "copies key cp"
  shows "key x \<in> key ` set T \<Longrightarrow>
    merge_row key cp x (fold (merge_row key cp) ys (merge_row key cp x T)) =
    merge_row key cp x (fold (merge_row key cp) ys T)"
proof (induction ys arbitrary: T)
  case Nil
  then show ?case using assms merge_row_overwrite [of key cp x x T] by simp
next
  case (Cons y ys)
  show ?case
  proof (cases "key x = key y")
    case True
    then show ?thesis using assms Cons.prems by (simp add: merge_row_overwrite)
  next
    case False
    have in': "key x \<in> key ` set (merge_row key cp y T)"
      using assms Cons.prems by (simp add: merge_row_keys)
    have "merge_row key cp y (merge_row key cp x T) = merge_row key cp x (merge_row key cp y T)"
      using assms False Cons.prems by (rule merge_row_swap)
    then show ?thesis using Cons.IH [OF in'] by simp
  qed
qed

lemma fold_merge_row_idem:
  assumes "copies key cp"
  shows "fold (merge_row key cp) xs (fold (merge_row key cp) xs T) = fold (merge_row key cp) xs T"
proof (induction xs rule: rev_induct)
  case Nil
  show ?case by simp
next
  case (snoc x ys)
  let ?T = "fold (merge_row key cp) ys T"
  show ?case
  proof (cases "key x \<in> key ` set ?T")
    case True
    then show ?thesis using merge_row_absorb [OF assms True, of ys] snoc.IH by simp
  next
    case False
    have x: "cp x x = x" using assms by (simp add: copies_def)
    have 1: "merge_row key cp x ?T = ?T @ [x]"
      using merge_row_absent [OF False, of cp "[]"] by simp
    have "key ` set ys \<subseteq> key ` set ?T" using assms by (simp add: fold_merge_row_keys)
    then have 2: "fold (merge_row key cp) ys (?T @ [x]) = ?T @ [x]"
      using fold_merge_row_present [OF assms, of ys ?T "[x]"] snoc.IH by simp
    have 3: "merge_row key cp x (?T @ [x]) = ?T @ [x]"
      using merge_row_absent [OF False, of cp "[x]"] x by simp
    show ?thesis by (simp add: 1 2 3)
  qed
qed

lemma merge_row_distinct:
  "copies key cp \<Longrightarrow> distinct (map key T) \<Longrightarrow> distinct (map key (merge_row key cp x T))"
proof (induction T)
  case Nil
  show ?case by simp
next
  case (Cons r T)
  then show ?case
    using merge_row_keys [of key cp x T] by (auto simp: copies_def)
qed

lemma fold_merge_row_distinct:
  "copies key cp \<Longrightarrow> distinct (map key T) \<Longrightarrow> distinct (map key (fold (merge_row key cp) xs T))"
  by (induction xs arbitrary: T) (simp_all add: merge_row_distinct)

lemma fold_insert_absorbed: "set ps \<subseteq> set M \<Longrightarrow> fold List.insert ps M = M"
  by (induction ps arbitrary: M) (auto simp: List.insert_def)

lemma set_fold_insert: "set (fold List.insert ps M) = set ps \<union> set M"
  by (induction ps arbitrary: M) auto

lemma fold_insert_distinct: "distinct M \<Longrightarrow> distinct (fold List.insert ps M)"
  by (induction ps arbitrary: M) simp_all

subsection \<open>The loops of the stages\<close>

lemma fold_add_or_update_league:
  "fold add_or_update_league ls s = s\<lparr>leagues := fold (merge_row lg_id cp_league) ls (leagues s)\<rparr>"
  by (induction ls arbitrary: s) (simp_all add: add_or_update_league_def)

lemma fold_add_or_update_fixture:
  "fold add_or_update_fixture fs s = s\<lparr>fixtures := fold (merge_row f_id cp_all) fs (fixtures s)\<rparr>"
  by (induction fs arbitrary: s) (simp_all add: add_or_update_fixture_def)

lemma fold_add_or_update_team:
  "fold add_or_update_team ts s = s\<lparr>teams := fold (merge_row tm_id cp_all) ts (teams s)\<rparr>"
  by (induction ts arbitrary: s) (simp_all add: add_or_update_team_def)

lemma fixtures_loop_eq:
  "fixtures_loop api ub ls s =
    (s\<lparr>fixtures := fold (merge_row f_id cp_all)
          (fetched (\<lambda>i. api_get_fixtures_by_league api i ub) ls) (fixtures s)\<rparr>,
     fetch_error (\<lambda>i. api_get_fixtures_by_league api i ub) ls)"
  by (induction ls arbitrary: s) (simp_all add: fold_add_or_update_fixture split: sum.splits)

lemma teams_loop_eq:
  "teams_loop api ub ls s =
    (s\<lparr>teams := fold (merge_row tm_id cp_all)
          (fetched (\<lambda>i. api_get_teams_by_league api i ub) ls) (teams s)\<rparr>,
     fetch_error (\<lambda>i. api_get_teams_by_league api i ub) ls)"
  by (induction ls arbitrary: s) (simp_all add: fold_add_or_update_team split: sum.splits)

lemma link_loop_eq:
  "link_loop nm ps s =
    (s\<lparr>teams_leagues := fold List.insert (linked nm ps) (teams_leagues s)\<rparr>, link_error nm ps)"
  by (induction nm ps s rule: link_loop.induct)
     (auto simp: add_team_to_league_def split: option.splits)

lemma link_groups_frame:
  "leagues t = leagues s \<Longrightarrow> fixtures t = fixtures s \<Longrightarrow> teams t = teams s \<Longrightarrow>
   link_groups t = link_groups s"
  by (simp add: link_groups_def fixture_league_def team_of_def)

lemma link_pairs_frame:
  "leagues t = leagues s \<Longrightarrow> fixtures t = fixtures s \<Longrightarrow> teams t = teams s \<Longrightarrow>
   link_pairs order t = link_pairs order s"
  by (simp add: link_pairs_def link_groups_frame [of t s])

lemma get_current_leagues_frame: "leagues t = leagues s \<Longrightarrow> get_current_leagues t = get_current_leagues s"
  by (simp add: get_current_leagues_def)

lemma dangling_frame:
  "leagues t = leagues s \<Longrightarrow> fixtures t = fixtures s \<Longrightarrow> teams t = teams s \<Longrightarrow>
   dangling cfg t = dangling cfg s"
proof -
  assume a: "leagues t = leagues s" "fixtures t = fixtures s" "teams t = teams s"
  have "team_of t = team_of s" by (rule ext) (simp add: team_of_def a)
  moreover have "fixture_league t = fixture_league s" by (rule ext) (simp add: fixture_league_def a)
  ultimately show ?thesis by (simp add: dangling_def a cong: option.case_cong)
qed

subsection \<open>The pairs of the link stage\<close>

text \<open>The members of a dict of sets, as pairs of a member and its key.\<close>

lemma set_update_set: "set (set_update members new) = set members \<union> set new"
proof -
  have "\<And>acc. set (fold (\<lambda>x acc. if x \<in> set acc then acc else acc @ [x]) new acc) = set acc \<union> set new"
    by (induction new) auto
  then show ?thesis by (simp add: set_update_def)
qed

lemma setdefault_update_members:
  "{(m, k). \<exists>ms. (k, ms) \<in> set (setdefault_update key new d) \<and> m \<in> set ms} =
   {(m, k). \<exists>ms. (k, ms) \<in> set d \<and> m \<in> set ms} \<union> {(m, k). k = key \<and> m \<in> set new}"
proof (induction d)
  case Nil
  show ?case by (auto simp: set_update_set)
next
  case (Cons p d)
  obtain k' ms' where p: "p = (k', ms')" by (cases p)
  show ?case
  proof (cases "k' = key")
    case True
    then show ?thesis by (auto simp: p set_update_set)
  next
    case False
    have "{(m, k). \<exists>ms. (k, ms) \<in> set (setdefault_update key new (p # d)) \<and> m \<in> set ms} =
      {(m, k). k = k' \<and> m \<in> set ms'} \<union>
      {(m, k). \<exists>ms. (k, ms) \<in> set (setdefault_update key new d) \<and> m \<in> set ms}"
      using False by (auto simp: p)
    also have "\<dots> = {(m, k). k = k' \<and> m \<in> set ms'} \<union>
      ({(m, k). \<exists>ms. (k, ms) \<in> set d \<and> m \<in> set ms} \<union> {(m, k). k = key \<and> m \<in> set new})"
      by (simp only: Cons.IH)
    also have "\<dots> = {(m, k). \<exists>ms. (k, ms) \<in> set (p # d) \<and> m \<in> set ms} \<union>
      {(m, k). k = key \<and> m \<in> set new}"
      by (auto simp: p)
    finally show ?thesis .
  qed
qed

lemma fold_setdefault_update_members:
  "{(m, k). \<exists>ms. (k, ms) \<in> set (fold (\<lambda>f d. setdefault_update (key f) (new f) d) fs d) \<and> m \<in> set ms} =
   {(m, k). \<exists>ms. (k, ms) \<in> set d \<and> m \<in> set ms} \<union>
   {(m, k). \<exists>f \<in> set fs. k = key f \<and> m \<in> set (new f)}"
proof (induction fs arbitrary: d)
  case Nil
  show ?case by simp
next
  case (Cons f fs)
  show ?case
    by (simp only: fold_simps Cons.IH setdefault_update_members) auto
qed

lemma link_groups_members:
  "{(m, k). \<exists>ms. (k, ms) \<in> set (link_groups s) \<and> m \<in> set ms} =
   {(m, k). \<exists>f \<in> set (fixtures s). k = fixture_league s f \<and>
      (m = team_of s (f_home_team_id f) \<or> m = team_of s (f_away_team_id f))}"
  unfolding link_groups_def
  by (simp only: fold_setdefault_update_members) auto

lemma link_pairs_set:
  assumes "enumerates order"
  shows "set (link_pairs order s) =
    {(m, k). \<exists>f \<in> set (fixtures s). k = fixture_league s f \<and>
      (m = team_of s (f_home_team_id f) \<or> m = team_of s (f_away_team_id f))}"
proof -
  have "set (link_pairs order s) = {(m, k). \<exists>ms. (k, ms) \<in> set (link_groups s) \<and> m \<in> set ms}"
    using assms by (auto simp: link_pairs_def enumerates_def)
  then show ?thesis by (simp only: link_groups_members)
qed

lemma setdefault_update_keys: "fst ` set (setdefault_update key new d) = insert key (fst ` set d)"
proof (induction d)
  case Nil
  show ?case by simp
next
  case (Cons p d)
  obtain k' ms' where p: "p = (k', ms')" by (cases p)
  show ?case
  proof (cases "k' = key")
    case True
    then show ?thesis by (simp add: p insert_absorb2)
  next
    case False
    then show ?thesis by (simp add: p Cons.IH insert_commute)
  qed
qed

lemma fold_setdefault_update_keys:
  "fst ` set (fold (\<lambda>f d. setdefault_update (key f) (new f) d) fs d) = key ` set fs \<union> fst ` set d"
  by (induction fs arbitrary: d) (auto simp: setdefault_update_keys)

lemma link_pairs_leagues:
  assumes "(m, Some lid) \<in> set (link_pairs order s)"
  shows "lid \<in> f_league_id ` set (fixtures s)"
proof -
  from assms have "Some lid \<in> fst ` set (link_groups s)"
    by (force simp: link_pairs_def)
  then have "Some lid \<in> fixture_league s ` set (fixtures s)"
    by (simp add: link_groups_def fold_setdefault_update_keys)
  then obtain f where f: "f \<in> set (fixtures s)" and l: "fixture_league s f = Some lid" by auto
  from l obtain row where "find (\<lambda>l. lg_id l = f_league_id f) (leagues s) = Some row" "lg_id row = lid"
    by (auto simp: fixture_league_def)
  then have "lid = f_league_id f" by (auto simp: find_Some_iff)
  with f show ?thesis by blast
qed

lemma link_error_None:
  "link_error nm ps = None \<longleftrightarrow>
   (\<forall>p \<in> set ps. snd p \<noteq> None \<and> (fst p = None \<longrightarrow> nm = None))"
proof (induction ps)
  case Nil
  show ?case by simp
next
  case (Cons p ps)
  obtain team lg where p: "p = (team, lg)" by (cases p)
  show ?case
    using Cons.IH by (cases lg; cases team; cases nm) (simp_all add: p)
qed

lemma linked_subset: "(tid, lid) \<in> set (linked nm ps) \<Longrightarrow> (Some tid, Some lid) \<in> set ps"
  by (induction nm ps rule: linked.induct) (auto split: option.splits)

lemma linked_all:
  "link_error nm ps = None \<Longrightarrow> (Some tid, Some lid) \<in> set ps \<Longrightarrow> (tid, lid) \<in> set (linked nm ps)"
  by (induction nm ps rule: linked.induct) (auto split: option.splits)

lemma dangling_link_error:
  assumes "enumerates order"
  shows "link_error (null_member cfg) (link_pairs order s) = None \<longleftrightarrow> \<not> dangling cfg s"
proof (cases "null_member cfg")
  case None
  show ?thesis
    unfolding link_error_None link_pairs_set [OF assms] dangling_def list_ex_iff
    by (simp add: None) blast
next
  case (Some e)
  show ?thesis
    unfolding link_error_None link_pairs_set [OF assms] dangling_def list_ex_iff
    by (simp add: Some) blast
qed

lemma linked_same_set:
  assumes "enumerates order" and "enumerates order'" and "\<not> dangling cfg s"
  shows "set (linked (null_member cfg) (link_pairs order' s)) =
    set (linked (null_member cfg) (link_pairs order s))"
proof -
  have e: "link_error (null_member cfg) (link_pairs order s) = None"
    "link_error (null_member cfg) (link_pairs order' s) = None"
    using assms by (simp_all add: dangling_link_error)
  have s: "set (link_pairs order' s) = set (link_pairs order s)"
    using assms(1,2) by (simp add: link_pairs_set)
  show ?thesis
  proof (intro set_eqI iffI)
    fix p assume "p \<in> set (linked (null_member cfg) (link_pairs order' s))"
    then have "(Some (fst p), Some (snd p)) \<in> set (link_pairs order s)"
      using linked_subset [of "fst p" "snd p"] s by auto
    then show "p \<in> set (linked (null_member cfg) (link_pairs order s))"
      using linked_all [OF e(1), of "fst p" "snd p"] by simp
  next
    fix p assume "p \<in> set (linked (null_member cfg) (link_pairs order s))"
    then have "(Some (fst p), Some (snd p)) \<in> set (link_pairs order' s)"
      using linked_subset [of "fst p" "snd p"] s by auto
    then show "p \<in> set (linked (null_member cfg) (link_pairs order' s))"
      using linked_all [OF e(2), of "fst p" "snd p"] by simp
  qed
qed

lemma after_teams_eq:
  "after_teams cfg api s =
    (s\<lparr>teams_leagues := fold List.insert
          (linked (null_member cfg) (link_pairs (set_order cfg) s)) (teams_leagues s)\<rparr>,
     case link_error (null_member cfg) (link_pairs (set_order cfg) s) of
       Some e \<Rightarrow> Some e
     | None \<Rightarrow> (case get_remaining_api_calls api 1 of Inl e \<Rightarrow> Some e | Inr a \<Rightarrow> None))"
  by (simp add: after_teams_def link_loop_eq split: option.splits sum.splits)

lemma before_link_cases:
  assumes "before_link cfg api s = (s3, r)"
  obtains (status) e where "get_remaining_api_calls api 0 = Inl e" and "s3 = s" and "r = Some e"
  | (leagues) b e where "get_remaining_api_calls api 0 = Inr b"
      and "api_get_leagues api (countries cfg) (seasons cfg) (use_backup cfg) = Inl e"
      and "s3 = s" and "r = Some e"
  | (fixtures) b ls e where "get_remaining_api_calls api 0 = Inr b"
      and "api_get_leagues api (countries cfg) (seasons cfg) (use_backup cfg) = Inr ls"
      and "fetch_error (\<lambda>i. api_get_fixtures_by_league api i (use_backup cfg))
             (get_current_leagues (s\<lparr>leagues := fold (merge_row lg_id cp_league) ls (leagues s)\<rparr>)) = Some e"
      and "s3 = s\<lparr>leagues := fold (merge_row lg_id cp_league) ls (leagues s),
             fixtures := fold (merge_row f_id cp_all)
               (fetched (\<lambda>i. api_get_fixtures_by_league api i (use_backup cfg))
                  (get_current_leagues (s\<lparr>leagues := fold (merge_row lg_id cp_league) ls (leagues s)\<rparr>)))
               (fixtures s)\<rparr>"
      and "r = Some e"
  | (teams) b ls where "get_remaining_api_calls api 0 = Inr b"
      and "api_get_leagues api (countries cfg) (seasons cfg) (use_backup cfg) = Inr ls"
      and "fetch_error (\<lambda>i. api_get_fixtures_by_league api i (use_backup cfg))
             (get_current_leagues (s\<lparr>leagues := fold (merge_row lg_id cp_league) ls (leagues s)\<rparr>)) = None"
      and "s3 = s\<lparr>leagues := fold (merge_row lg_id cp_league) ls (leagues s),
             fixtures := fold (merge_row f_id cp_all)
               (fetched (\<lambda>i. api_get_fixtures_by_league api i (use_backup cfg))
                  (get_current_leagues (s\<lparr>leagues := fold (merge_row lg_id cp_league) ls (leagues s)\<rparr>)))
               (fixtures s),
             teams := fold (merge_row tm_id cp_all)
               (fetched (\<lambda>i. api_get_teams_by_league api i (use_backup cfg))
                  (get_current_leagues (s\<lparr>leagues := fold (merge_row lg_id cp_league) ls (leagues s)\<rparr>)))
               (teams s)\<rparr>"
      and "r = fetch_error (\<lambda>i. api_get_teams_by_league api i (use_backup cfg))
             (get_current_leagues (s\<lparr>leagues := fold (merge_row lg_id cp_league) ls (leagues s)\<rparr>))"
proof (cases "get_remaining_api_calls api 0")
  case (Inl e)
  then show ?thesis using assms status by (simp add: before_link_def)
next
  case st: (Inr b)
  show ?thesis
  proof (cases "api_get_leagues api (countries cfg) (seasons cfg) (use_backup cfg)")
    case (Inl e)
    then show ?thesis using assms st leagues by (simp add: before_link_def)
  next
    case (Inr ls)
    let ?s1 = "s\<lparr>leagues := fold (merge_row lg_id cp_league) ls (leagues s)\<rparr>"
    let ?s2 = "?s1\<lparr>fixtures := fold (merge_row f_id cp_all)
               (fetched (\<lambda>i. api_get_fixtures_by_league api i (use_backup cfg)) (get_current_leagues ?s1))
               (fixtures ?s1)\<rparr>"
    have cur: "get_current_leagues ?s2 = get_current_leagues ?s1"
      by (rule get_current_leagues_frame) simp
    show ?thesis
    proof (cases "fetch_error (\<lambda>i. api_get_fixtures_by_league api i (use_backup cfg)) (get_current_leagues ?s1)")
      case (Some e)
      have "s3 = ?s2 \<and> r = Some e"
        using assms st Inr Some
        by (simp add: before_link_def fold_add_or_update_league fixtures_loop_eq)
      then show ?thesis using fixtures [OF st Inr Some] by simp
    next
      case None
      have "teams_loop api (use_backup cfg) (get_current_leagues ?s2) ?s2 = (s3, r)"
        using assms st Inr None
        by (simp add: before_link_def fold_add_or_update_league fixtures_loop_eq)
      then have "s3 = ?s2\<lparr>teams := fold (merge_row tm_id cp_all)
               (fetched (\<lambda>i. api_get_teams_by_league api i (use_backup cfg)) (get_current_leagues ?s1))
               (teams ?s2)\<rparr> \<and>
          r = fetch_error (\<lambda>i. api_get_teams_by_league api i (use_backup cfg)) (get_current_leagues ?s1)"
        unfolding teams_loop_eq cur by simp
      then show ?thesis using teams [OF st Inr None] by simp
    qed
  qed
qed

lemma before_link_membership:
  assumes "before_link cfg api s = (s3, r)"
  shows "teams_leagues s3 = teams_leagues s"
  using assms by (cases rule: before_link_cases) simp_all

lemma before_link_unique:
  assumes "before_link cfg api s = (s3, r)" and "unique_keys s"
  shows "unique_keys s3"
  using assms(1)
proof (cases rule: before_link_cases)
  case (status e)
  then show ?thesis using assms(2) by simp
next
  case (leagues b e)
  then show ?thesis using assms(2) by simp
next
  case (fixtures b ls e)
  show ?thesis using assms(2) unfolding fixtures(4)
    by (simp add: unique_keys_def fold_merge_row_distinct [OF copies_league]
        fold_merge_row_distinct [OF copies_all])
next
  case (teams b ls)
  show ?thesis using assms(2) unfolding teams(4)
    by (simp add: unique_keys_def fold_merge_row_distinct [OF copies_league]
        fold_merge_row_distinct [OF copies_all])
qed

lemma before_link_set_order: "before_link (cfg\<lparr>set_order := order\<rparr>) api s = before_link cfg api s"
  by (simp add: before_link_def cong: sum.case_cong option.case_cong)

text \<open>
  The stages before the link stage change nothing when they run again on the store
  they left, whatever the table of team and league pairs has become.
\<close>

lemma before_link_again:
  assumes "before_link cfg api s = (s3, r)"
    and "leagues t = leagues s3" and "fixtures t = fixtures s3" and "teams t = teams s3"
  shows "before_link cfg api t = (t, r)"
  using assms(1)
proof (cases rule: before_link_cases)
  case (status e)
  then show ?thesis by (simp add: before_link_def)
next
  case (leagues b e)
  then show ?thesis by (simp add: before_link_def)
next
  case (fixtures b ls e)
  let ?s1 = "s\<lparr>leagues := fold (merge_row lg_id cp_league) ls (leagues s)\<rparr>"
  have l: "fold (merge_row lg_id cp_league) ls (leagues t) = leagues t"
    unfolding assms(2) fixtures(4) by (simp add: fold_merge_row_idem [OF copies_league])
  then have t1: "fold add_or_update_league ls t = t" by (simp add: fold_add_or_update_league)
  have cur: "get_current_leagues t = get_current_leagues ?s1"
    by (rule get_current_leagues_frame) (simp add: assms(2) fixtures(4))
  have f: "fold (merge_row f_id cp_all)
      (fetched (\<lambda>i. api_get_fixtures_by_league api i (use_backup cfg)) (get_current_leagues ?s1))
      (fixtures t) = fixtures t"
    unfolding assms(3) fixtures(4) by (simp add: fold_merge_row_idem [OF copies_all])
  have "fixtures_loop api (use_backup cfg) (get_current_leagues t) t = (t, Some e)"
    by (simp add: fixtures_loop_eq cur fixtures(3) f)
  then show ?thesis
    by (simp add: before_link_def fixtures(1) fixtures(2) t1 fixtures(5))
next
  case (teams b ls)
  let ?s1 = "s\<lparr>leagues := fold (merge_row lg_id cp_league) ls (leagues s)\<rparr>"
  have l: "fold (merge_row lg_id cp_league) ls (leagues t) = leagues t"
    unfolding assms(2) teams(4) by (simp add: fold_merge_row_idem [OF copies_league])
  then have t1: "fold add_or_update_league ls t = t" by (simp add: fold_add_or_update_league)
  have cur: "get_current_leagues t = get_current_leagues ?s1"
    by (rule get_current_leagues_frame) (simp add: assms(2) teams(4))
  have f: "fold (merge_row f_id cp_all)
      (fetched (\<lambda>i. api_get_fixtures_by_league api i (use_backup cfg)) (get_current_leagues ?s1))
      (fixtures t) = fixtures t"
    unfolding assms(3) teams(4) by (simp add: fold_merge_row_idem [OF copies_all])
  have m: "fold (merge_row tm_id cp_all)
      (fetched (\<lambda>i. api_get_teams_by_league api i (use_backup cfg)) (get_current_leagues ?s1))
      (teams t) = teams t"
    unfolding assms(4) teams(4) by (simp add: fold_merge_row_idem [OF copies_all])
  have "fixtures_loop api (use_backup cfg) (get_current_leagues t) t = (t, None)"
    by (simp add: fixtures_loop_eq cur teams(3) f)
  moreover have "teams_loop api (use_backup cfg) (get_current_leagues t) t = (t, r)"
    by (simp add: teams_loop_eq cur m teams(5))
  ultimately show ?thesis
    by (simp add: before_link_def teams(1) teams(2) t1)
qed

subsection \<open>The refresh on the store\<close>

lemma populate_fixtures_store:
  "populate_fixtures cfg api now d = (d', r) \<Longrightarrow>
   fixtures_loop api (use_backup cfg) (get_current_leagues (data_interface d)) (data_interface d) =
     (data_interface d', r)"
  by (auto simp: populate_fixtures_def split: prod.splits option.splits)

lemma populate_teams_store:
  "populate_teams cfg api now d = (d', r) \<Longrightarrow>
   teams_loop api (use_backup cfg) (get_current_leagues (data_interface d)) (data_interface d) =
     (data_interface d', r)"
  by (auto simp: populate_teams_def split: prod.splits option.splits)

lemma link_teams_store:
  "link_teams cfg now d = (d', r) \<Longrightarrow>
   link_loop (null_member cfg) (link_pairs (set_order cfg) (data_interface d)) (data_interface d) =
     (data_interface d', r)"
  by (auto simp: link_teams_def split: prod.splits option.splits)

lemma body_after_teams:
  "apfst data_interface
     (case link_teams cfg now d3 of
        (d4, Some e) \<Rightarrow> (d4, Some e)
      | (d4, None) \<Rightarrow>
          (case get_remaining_api_calls api 1 of
             Inl e \<Rightarrow> (d4, Some e)
           | Inr after \<Rightarrow> (d4, None))) =
   after_teams cfg api (data_interface d3)"
proof -
  obtain d4 r where l: "link_teams cfg now d3 = (d4, r)" by (cases "link_teams cfg now d3")
  show ?thesis
    using link_teams_store [OF l]
    by (simp add: l after_teams_def split: option.splits sum.splits)
qed

lemma body_after_fixtures:
  "apfst data_interface
     (case populate_teams cfg api now d2 of
        (d3, Some e) \<Rightarrow> (d3, Some e)
      | (d3, None) \<Rightarrow>
          (case link_teams cfg now d3 of
             (d4, Some e) \<Rightarrow> (d4, Some e)
           | (d4, None) \<Rightarrow>
               (case get_remaining_api_calls api 1 of
                  Inl e \<Rightarrow> (d4, Some e)
                | Inr after \<Rightarrow> (d4, None)))) =
   (case teams_loop api (use_backup cfg) (get_current_leagues (data_interface d2)) (data_interface d2) of
      (s3, Some e) \<Rightarrow> (s3, Some e)
    | (s3, None) \<Rightarrow> after_teams cfg api s3)"
proof -
  obtain d3 r where l: "populate_teams cfg api now d2 = (d3, r)"
    by (cases "populate_teams cfg api now d2")
  show ?thesis
  proof (cases r)
    case None
    then show ?thesis
      using populate_teams_store [OF l]
      by (simp add: l body_after_teams del: One_nat_def)
  next
    case (Some e)
    then show ?thesis
      using populate_teams_store [OF l] by (simp add: l)
  qed
qed

lemma body_after_leagues:
  "apfst data_interface
     (case populate_fixtures cfg api now d1 of
        (d2, Some e) \<Rightarrow> (d2, Some e)
      | (d2, None) \<Rightarrow>
     (case populate_teams cfg api now d2 of
        (d3, Some e) \<Rightarrow> (d3, Some e)
      | (d3, None) \<Rightarrow>
          (case link_teams cfg now d3 of
             (d4, Some e) \<Rightarrow> (d4, Some e)
           | (d4, None) \<Rightarrow>
               (case get_remaining_api_calls api 1 of
                  Inl e \<Rightarrow> (d4, Some e)
                | Inr after \<Rightarrow> (d4, None))))) =
   (case (case fixtures_loop api (use_backup cfg) (get_current_leagues (data_interface d1))
                 (data_interface d1) of
            (s2, Some e) \<Rightarrow> (s2, Some e)
          | (s2, None) \<Rightarrow> teams_loop api (use_backup cfg) (get_current_leagues s2) s2) of
      (s3, Some e) \<Rightarrow> (s3, Some e)
    | (s3, None) \<Rightarrow> after_teams cfg api s3)"
proof -
  obtain d2 r where l: "populate_fixtures cfg api now d1 = (d2, r)"
    by (cases "populate_fixtures cfg api now d1")
  show ?thesis
  proof (cases r)
    case None
    then show ?thesis
      using populate_fixtures_store [OF l]
      by (simp add: l body_after_fixtures del: One_nat_def)
  next
    case (Some e)
    then show ?thesis
      using populate_fixtures_store [OF l] by (simp add: l)
  qed
qed

lemma refresh_body_store:
  "apfst data_interface (refresh_body cfg api now d) = store_refresh cfg api (data_interface d)"
proof (cases "get_remaining_api_calls api 0")
  case (Inl e)
  then show ?thesis by (simp add: refresh_body_def store_refresh_def before_link_def)
next
  case st: (Inr b)
  show ?thesis
  proof (cases "api_get_leagues api (countries cfg) (seasons cfg) (use_backup cfg)")
    case (Inl e)
    then show ?thesis using st
      by (simp add: refresh_body_def store_refresh_def before_link_def populate_leagues_def)
  next
    case (Inr ls)
    define d1 where "d1 = d\<lparr>data_interface := fold add_or_update_league ls (data_interface d),
            last_refresh_times := (last_refresh_times d)(Leagues := Some (now Leagues))\<rparr>"
    have pl: "populate_leagues cfg api now d = (d1, None)"
      using Inr by (simp add: populate_leagues_def d1_def)
    have di: "data_interface d1 = fold add_or_update_league ls (data_interface d)"
      by (simp add: d1_def)
    show ?thesis
      by (simp add: refresh_body_def store_refresh_def before_link_def st Inr pl di [symmetric]
          body_after_leagues del: One_nat_def)
  qed
qed

lemma load_all_store:
  "data_interface (fst (load_all cfg api now d)) = fst (store_refresh cfg api (data_interface d))"
proof -
  obtain d' r where b: "refresh_body cfg api now d = (d', r)" by (cases "refresh_body cfg api now d")
  have "fst (store_refresh cfg api (data_interface d)) = data_interface d'"
    using refresh_body_store [of cfg api now d, symmetric] by (simp add: b)
  then show ?thesis by (simp add: load_all_def b split: option.splits)
qed

lemma load_all_result:
  "snd (load_all cfg api now d) =
    (case snd (store_refresh cfg api (data_interface d)) of
       None \<Rightarrow> None
     | Some e \<Rightarrow> if ignore_refresh_failures cfg then None else Some e)"
proof -
  obtain d' r where b: "refresh_body cfg api now d = (d', r)" by (cases "refresh_body cfg api now d")
  have "snd (store_refresh cfg api (data_interface d)) = r"
    using refresh_body_store [of cfg api now d, symmetric] by (simp add: b)
  then show ?thesis by (simp add: load_all_def b split: option.splits)
qed

lemma after_teams_result:
  assumes "after_teams cfg api s = (s', r)"
  shows "s' = s\<lparr>teams_leagues := fold List.insert
          (linked (null_member cfg) (link_pairs (set_order cfg) s)) (teams_leagues s)\<rparr>"
    and "r = (case link_error (null_member cfg) (link_pairs (set_order cfg) s) of
       Some e \<Rightarrow> Some e
     | None \<Rightarrow> (case get_remaining_api_calls api 1 of Inl e \<Rightarrow> Some e | Inr a \<Rightarrow> None))"
  using assms [symmetric] by (simp_all add: after_teams_eq)

lemma after_teams_unique:
  "after_teams cfg api s = (s', r) \<Longrightarrow> unique_keys s \<Longrightarrow> unique_keys s'"
  by (auto simp: after_teams_eq unique_keys_def fold_insert_distinct)

lemma store_refresh_unique:
  assumes "store_refresh cfg api s = (s', r)" and "unique_keys s"
  shows "unique_keys s'"
proof -
  obtain s3 rb where bl: "before_link cfg api s = (s3, rb)" by (cases "before_link cfg api s")
  have u: "unique_keys s3" using bl assms(2) by (rule before_link_unique)
  show ?thesis
  proof (cases rb)
    case None
    then have "after_teams cfg api s3 = (s', r)" using assms(1) bl by (simp add: store_refresh_def)
    then show ?thesis using u by (rule after_teams_unique)
  next
    case (Some e)
    then have "s' = s3" using assms(1) bl by (simp add: store_refresh_def)
    then show ?thesis using u by simp
  qed
qed

lemma rows_of_fold_insert:
  "\<forall>p \<in> set ps. snd p \<noteq> c \<Longrightarrow> rows_of c (fold List.insert ps M) = rows_of c M"
  by (induction ps arbitrary: M) (simp_all add: rows_of_def List.insert_def)

subsection \<open>Two runs on the store\<close>

lemma store_refresh_twice:
  assumes "store_refresh cfg api s = (s1, r1)"
    and "store_refresh (cfg\<lparr>set_order := order'\<rparr>) api s1 = (s2, r2)"
  shows "leagues s2 = leagues s1 \<and> fixtures s2 = fixtures s1 \<and> teams s2 = teams s1 \<and>
      users s2 = users s1 \<and> aliases s2 = aliases s1 \<and>
      set (teams_leagues s1) \<subseteq> set (teams_leagues s2)" (is ?frame)
    and "order' = set_order cfg \<Longrightarrow> s2 = s1 \<and> r2 = r1"
    and "enumerates (set_order cfg) \<Longrightarrow> enumerates order' \<Longrightarrow> \<not> dangling cfg s1 \<Longrightarrow>
      s2 = s1 \<and> r2 = r1"
proof -
  let ?cfg' = "cfg\<lparr>set_order := order'\<rparr>"
  obtain s3 rb where bl: "before_link cfg api s = (s3, rb)" by (cases "before_link cfg api s")
  have all: "?frame \<and> (order' = set_order cfg \<longrightarrow> s2 = s1 \<and> r2 = r1) \<and>
    (enumerates (set_order cfg) \<and> enumerates order' \<and> \<not> dangling cfg s1 \<longrightarrow> s2 = s1 \<and> r2 = r1)"
  proof (cases rb)
    case (Some e)
    then have 1: "s1 = s3" "r1 = Some e" using assms(1) bl by (simp_all add: store_refresh_def)
    have "before_link cfg api s1 = (s1, Some e)"
      using bl Some by (simp add: 1 before_link_again [OF bl])
    then have "before_link ?cfg' api s1 = (s1, Some e)" by (simp only: before_link_set_order)
    then have "s2 = s1" "r2 = Some e" using assms(2) by (simp_all add: store_refresh_def)
    then show ?thesis by (simp add: 1)
  next
    case None
    define nm where "nm = null_member cfg"
    define ps where "ps = link_pairs (set_order cfg) s3"
    define ps' where "ps' = link_pairs order' s3"
    define tail where "tail = (case get_remaining_api_calls api 1 of Inl e \<Rightarrow> Some e | Inr a \<Rightarrow> None)"
    have at: "after_teams cfg api s3 = (s1, r1)"
      using assms(1) bl None by (simp add: store_refresh_def)
    have s1: "s1 = s3\<lparr>teams_leagues := fold List.insert (linked nm ps) (teams_leagues s3)\<rparr>"
      and r1: "r1 = (case link_error nm ps of Some e \<Rightarrow> Some e | None \<Rightarrow> tail)"
      using after_teams_result [OF at] unfolding nm_def ps_def tail_def by (simp_all del: One_nat_def)
    have "before_link cfg api s1 = (s1, None)"
      using None by (simp add: s1 before_link_again [OF bl])
    then have "before_link ?cfg' api s1 = (s1, None)" by (simp only: before_link_set_order)
    then have at2: "after_teams ?cfg' api s1 = (s2, r2)"
      using assms(2) by (simp add: store_refresh_def)
    have lp: "link_pairs order' s1 = ps'"
      unfolding ps'_def by (rule link_pairs_frame) (simp_all add: s1)
    have s2: "s2 = s1\<lparr>teams_leagues := fold List.insert (linked nm ps') (teams_leagues s1)\<rparr>"
      and r2: "r2 = (case link_error nm ps' of Some e \<Rightarrow> Some e | None \<Rightarrow> tail)"
      using after_teams_result [OF at2] unfolding nm_def tail_def lp [symmetric]
      by (simp_all del: One_nat_def)
    have tl1: "set (teams_leagues s1) = set (linked nm ps) \<union> set (teams_leagues s3)"
      by (simp add: s1 set_fold_insert)
    have frame: ?frame by (simp add: s2 set_fold_insert)
    have same: "s2 = s1 \<and> r2 = r1" if "order' = set_order cfg"
    proof -
      have "ps' = ps" using that by (simp add: ps_def ps'_def)
      moreover have "fold List.insert (linked nm ps) (teams_leagues s1) = teams_leagues s1"
        by (rule fold_insert_absorbed) (simp add: tl1)
      ultimately show ?thesis by (simp add: s2 r1 r2)
    qed
    have sound: "s2 = s1 \<and> r2 = r1"
      if e: "enumerates (set_order cfg)" and e': "enumerates order'" and nd: "\<not> dangling cfg s1"
    proof -
      have "dangling cfg s1 = dangling cfg s3"
        by (rule dangling_frame) (simp_all add: s1)
      then have nd3: "\<not> dangling cfg s3" using nd by simp
      have le: "link_error nm ps = None" "link_error nm ps' = None"
        using nd3 e e' by (simp_all add: nm_def ps_def ps'_def dangling_link_error)
      have "set (linked nm ps') = set (linked nm ps)"
        unfolding nm_def ps_def ps'_def using e e' nd3 by (rule linked_same_set)
      then have "fold List.insert (linked nm ps') (teams_leagues s1) = teams_leagues s1"
        by (intro fold_insert_absorbed) (simp add: tl1)
      then show ?thesis by (simp add: s2 r1 r2 le)
    qed
    from frame same sound show ?thesis by blast
  qed
  from all show ?frame by blast
  from all show "order' = set_order cfg \<Longrightarrow> s2 = s1 \<and> r2 = r1" by blast
  from all show "enumerates (set_order cfg) \<Longrightarrow> enumerates order' \<Longrightarrow> \<not> dangling cfg s1 \<Longrightarrow>
      s2 = s1 \<and> r2 = r1" by blast
qed

lemma load_all_outcome:
  "load_all cfg api now d = (d1, r1) \<Longrightarrow>
   store_refresh cfg api (data_interface d) = (data_interface d1, r) \<Longrightarrow>
   r1 = (case r of None \<Rightarrow> None | Some e \<Rightarrow> if ignore_refresh_failures cfg then None else Some e)"
  using load_all_result [of cfg api now d] by simp

lemma load_all_store_refresh:
  "load_all cfg api now d = (d1, r1) \<Longrightarrow>
   \<exists>r. store_refresh cfg api (data_interface d) = (data_interface d1, r)"
  using load_all_store [of cfg api now d]
  by (cases "store_refresh cfg api (data_interface d)") simp

subsection \<open>Runs evaluated\<close>

lemmas more_defs = rangers_def derby_def api_ok_def api_full_def store_full_def loader_full_def
  old_league_def old_fixture_def old_store_def old_loader_def old_refreshed_def
  old_refreshed_loader_def torn_store_def torn_loader_def cfg_forward_def cfg_backward_def
  torn_first_def torn_linked_def

lemmas link_defs = fixture_league_def team_of_def set_update_def add_team_to_league_def
  cp_league_def cp_all_def

lemma full_run: "load_all demo_cfg api_full demo_now empty_loader = (loader_full, None)"
  by (simp add: demo_defs loader_defs more_defs link_defs load_all_def refresh_body_def)

lemma old_run: "load_all demo_cfg api_ok demo_now old_loader = (old_refreshed_loader, None)"
  by (simp add: demo_defs loader_defs more_defs link_defs load_all_def refresh_body_def)

lemma torn_run_backward:
  "load_all cfg_backward api_ok demo_now torn_loader = (torn_first, Some (OtherError ''FlushError''))"
  by (simp add: demo_defs loader_defs more_defs link_defs load_all_def refresh_body_def)

lemma torn_run_forward:
  "teams_leagues (data_interface (fst (load_all cfg_forward api_ok demo_now torn_first))) = [(5, 1)]"
  by (simp add: demo_defs loader_defs more_defs link_defs load_all_def refresh_body_def)

lemma torn_run_same: "load_all cfg_forward api_ok demo_now torn_loader =
    (torn_linked, Some (OtherError ''FlushError''))"
  by (simp add: demo_defs loader_defs more_defs link_defs load_all_def refresh_body_def)

lemma enumerates_rev: "enumerates (\<lambda>lg members. rev members)"
  by (simp add: enumerates_def)

subsection \<open>Running the refresh twice\<close>

text \<open>
  Claim C2, as stated, fails: the second loop of \<open>link_teams\<close> iterates a set, and the
  order of that iteration is not fixed.  Here the store holds the fixture 10 of the
  league 1 between the team 5 and the team 6, and no row for the team 6, so the set of
  the league 1 is \<open>{team 5, None}\<close>, and appending \<open>None\<close> raises.  The first run meets
  \<open>None\<close> first and leaves the table of team and league pairs empty; the second run,
  with the same answers of the API, meets the team 5 first and leaves the pair
  \<open>(5, 1)\<close> in the table.
\<close>

theorem load_all_order_counterexample:
  "load_all cfg_backward api_ok demo_now torn_loader =
     (torn_first, Some (OtherError ''FlushError'')) \<and>
   teams_leagues (data_interface torn_first) = [] \<and>
   teams_leagues (data_interface (fst (load_all cfg_forward api_ok demo_now torn_first))) = [(5, 1)]"
  by (simp add: torn_run_backward torn_run_forward) (simp add: torn_first_def torn_store_def)

text \<open>
  Claim C2, amended.  Two runs of \<open>load_all\<close> with the same answers of the API, the
  second on the loader the first one left, each with its own order of iterating the
  sets, whatever the time stamps are and also when a stage fails: the second run leaves
  the leagues, the fixtures and the teams exactly as the first run left them, and it
  removes no row from the table of team and league pairs.  When both runs iterate the
  sets in the same order, or when no fixture of the store after the first run refers
  to a league without a row or, where a null member raises, to a team without a row,
  the second run leaves the whole store exactly as the first run left it and ends the
  same way (the same exception or none).  Every stage merges by primary key: if no
  table had two rows with one key before the first run, none has after either run, the
  table of team and league pairs included.
\<close>

theorem load_all_twice:
  assumes "load_all cfg api now d = (d1, r1)"
    and "load_all (cfg\<lparr>set_order := order'\<rparr>) api now' d1 = (d2, r2)"
  shows "leagues (data_interface d2) = leagues (data_interface d1) \<and>
    fixtures (data_interface d2) = fixtures (data_interface d1) \<and>
    teams (data_interface d2) = teams (data_interface d1) \<and>
    set (teams_leagues (data_interface d1)) \<subseteq> set (teams_leagues (data_interface d2)) \<and>
    (order' = set_order cfg \<longrightarrow> data_interface d2 = data_interface d1 \<and> r2 = r1) \<and>
    (enumerates (set_order cfg) \<and> enumerates order' \<and> \<not> dangling cfg (data_interface d1) \<longrightarrow>
       data_interface d2 = data_interface d1 \<and> r2 = r1) \<and>
    (unique_keys (data_interface d) \<longrightarrow>
       unique_keys (data_interface d1) \<and> unique_keys (data_interface d2))"
proof -
  let ?cfg' = "cfg\<lparr>set_order := order'\<rparr>"
  obtain q1 where 1: "store_refresh cfg api (data_interface d) = (data_interface d1, q1)"
    using load_all_store_refresh [OF assms(1)] by blast
  obtain q2 where 2: "store_refresh ?cfg' api (data_interface d1) = (data_interface d2, q2)"
    using load_all_store_refresh [OF assms(2)] by blast
  have o1: "r1 = (case q1 of None \<Rightarrow> None | Some e \<Rightarrow> if ignore_refresh_failures cfg then None else Some e)"
    using load_all_outcome [OF assms(1) 1] .
  have o2: "r2 = (case q2 of None \<Rightarrow> None | Some e \<Rightarrow> if ignore_refresh_failures cfg then None else Some e)"
    using load_all_outcome [OF assms(2) 2] by (simp cong: option.case_cong)
  note t = store_refresh_twice [OF 1 2]
  have u: "unique_keys (data_interface d) \<longrightarrow>
      unique_keys (data_interface d1) \<and> unique_keys (data_interface d2)"
    using store_refresh_unique [OF 1] store_refresh_unique [OF 2] by blast
  have a: "order' = set_order cfg \<longrightarrow> data_interface d2 = data_interface d1 \<and> r2 = r1"
    using t(2) o1 o2 by simp
  have b: "enumerates (set_order cfg) \<and> enumerates order' \<and> \<not> dangling cfg (data_interface d1) \<longrightarrow>
       data_interface d2 = data_interface d1 \<and> r2 = r1"
    using t(3) o1 o2 by simp
  from t(1) a b u show ?thesis by blast
qed

theorem load_all_twice_witness:
  "load_all demo_cfg api_full demo_now empty_loader = (loader_full, None) \<and>
   enumerates (set_order demo_cfg) \<and>
   enumerates (\<lambda>(lg :: int option) (members :: int option list). rev members) \<and>
   dangling demo_cfg (data_interface loader_full) = False \<and>
   unique_keys (data_interface empty_loader) \<and>
   data_interface (fst (load_all (demo_cfg\<lparr>set_order := (\<lambda>lg members. rev members)\<rparr>)
      api_full demo_now loader_full)) = data_interface loader_full \<and>
   snd (load_all (demo_cfg\<lparr>set_order := (\<lambda>lg members. rev members)\<rparr>)
      api_full demo_now loader_full) = None \<and>
   teams_leagues (data_interface loader_full) = [(6, 3), (5, 3)] \<and>
   unique_keys (data_interface loader_full) \<and>
   load_all cfg_forward api_ok demo_now torn_loader =
     (torn_linked, Some (OtherError ''FlushError'')) \<and>
   dangling cfg_forward (data_interface torn_linked) \<and>
   data_interface (fst (load_all cfg_forward api_ok demo_now torn_linked)) =
     data_interface torn_linked \<and>
   snd (load_all cfg_forward api_ok demo_now torn_linked) = Some (OtherError ''FlushError'')"
proof -
  have c: "cfg_forward\<lparr>set_order := set_order cfg_forward\<rparr> = cfg_forward" by simp
  have td: "dangling cfg_forward (data_interface torn_linked)"
    by (simp add: dangling_def demo_defs more_defs link_defs)
  note same = load_all_twice [OF torn_run_same,
        where order' = "set_order cfg_forward" and now' = demo_now
          and ?d2.0 = "fst (load_all cfg_forward api_ok demo_now torn_linked)"
          and ?r2.0 = "snd (load_all cfg_forward api_ok demo_now torn_linked)", unfolded c]
  have e: "enumerates (set_order demo_cfg)" by (simp add: demo_cfg_def enumerates_def)
  have e': "enumerates (\<lambda>(lg :: int option) (members :: int option list). rev members)" by (rule enumerates_rev)
  have nd: "dangling demo_cfg (data_interface loader_full) = False"
    by (simp add: dangling_def demo_defs more_defs link_defs)
  have u: "unique_keys (data_interface empty_loader)"
    by (simp add: unique_keys_def empty_loader_def empty_store_def)
  have m: "teams_leagues (data_interface loader_full) = [(6, 3), (5, 3)]"
    by (simp add: loader_full_def store_full_def)
  show ?thesis
    using load_all_twice [OF full_run,
        where order' = "\<lambda>lg members. rev members" and now' = demo_now
          and ?d2.0 = "fst (load_all (demo_cfg\<lparr>set_order := (\<lambda>lg members. rev members)\<rparr>)
            api_full demo_now loader_full)"
          and ?r2.0 = "snd (load_all (demo_cfg\<lparr>set_order := (\<lambda>lg members. rev members)\<rparr>)
            api_full demo_now loader_full)"]
      e e' nd u m full_run same td torn_run_same
    by simp
qed


subsection \<open>The rows of a league without fixtures\<close>

lemma after_teams_rows:
  assumes "after_teams cfg api s3 = (s1, r)"
    and "c \<notin> f_league_id ` set (fixtures s3)"
  shows "rows_of c (teams_leagues s1) = rows_of c (teams_leagues s3)"
proof -
  let ?ps = "link_pairs (set_order cfg) s3"
  have s1: "teams_leagues s1 = fold List.insert (linked (null_member cfg) ?ps) (teams_leagues s3)"
    using after_teams_result(1) [OF assms(1)] by simp
  have "\<forall>p \<in> set (linked (null_member cfg) ?ps). snd p \<noteq> c"
  proof
    fix p assume "p \<in> set (linked (null_member cfg) ?ps)"
    then have "(Some (fst p), Some (snd p)) \<in> set ?ps"
      using linked_subset [of "fst p" "snd p"] by simp
    then have "snd p \<in> f_league_id ` set (fixtures s3)" by (rule link_pairs_leagues)
    then show "snd p \<noteq> c" using assms(2) by auto
  qed
  then show ?thesis unfolding s1 by (rule rows_of_fold_insert)
qed

lemma store_refresh_rows:
  assumes "store_refresh cfg api s = (s1, r)"
  shows "(c \<notin> f_league_id ` set (fixtures s1) \<longrightarrow>
      rows_of c (teams_leagues s1) = rows_of c (teams_leagues s)) \<and>
    set (teams_leagues s) \<subseteq> set (teams_leagues s1)"
proof -
  obtain s3 rb where bl: "before_link cfg api s = (s3, rb)" by (cases "before_link cfg api s")
  have m: "teams_leagues s3 = teams_leagues s" using bl by (rule before_link_membership)
  show ?thesis
  proof (cases rb)
    case (Some e)
    then have "s1 = s3" using assms bl by (simp add: store_refresh_def)
    then show ?thesis by (simp add: m)
  next
    case None
    then have at: "after_teams cfg api s3 = (s1, r)" using assms bl by (simp add: store_refresh_def)
    have f: "fixtures s1 = fixtures s3" using after_teams_result(1) [OF at] by simp
    have "set (teams_leagues s3) \<subseteq> set (teams_leagues s1)"
      using after_teams_result(1) [OF at] by (simp add: set_fold_insert)
    then show ?thesis using after_teams_rows [OF at, of c] by (simp add: m f)
  qed
qed

lemma store_refresh_upsert:
  assumes "store_refresh cfg api s = (s1, None)"
    and "api_get_leagues api (countries cfg) (seasons cfg) (use_backup cfg) = Inr ls"
  shows "leagues s1 = fold (merge_row lg_id cp_league) ls (leagues s) \<and>
    teams s1 = fold (merge_row tm_id cp_all)
      (fetched (\<lambda>i. api_get_teams_by_league api i (use_backup cfg)) (get_current_leagues s1))
      (teams s)"
proof -
  obtain s3 rb where bl: "before_link cfg api s = (s3, rb)" by (cases "before_link cfg api s")
  have rb: "rb = None" using assms(1) bl by (cases rb) (simp_all add: store_refresh_def)
  then have at: "after_teams cfg api s3 = (s1, None)" using assms(1) bl by (simp add: store_refresh_def)
  have f: "leagues s1 = leagues s3" "teams s1 = teams s3"
    using after_teams_result(1) [OF at] by simp_all
  have cur: "get_current_leagues s1 = get_current_leagues s3"
    by (rule get_current_leagues_frame) (rule f(1))
  from bl have "leagues s3 = fold (merge_row lg_id cp_league) ls (leagues s) \<and>
    teams s3 = fold (merge_row tm_id cp_all)
      (fetched (\<lambda>i. api_get_teams_by_league api i (use_backup cfg)) (get_current_leagues s3))
      (teams s)"
  proof (cases rule: before_link_cases)
    case (status e)
    then show ?thesis using rb by simp
  next
    case (leagues b e)
    then show ?thesis using rb by simp
  next
    case (fixtures b ls' e)
    then show ?thesis using rb by simp
  next
    case (teams b ls')
    have ls': "ls' = ls" using teams(2) assms(2) by simp
    have "get_current_leagues s3 =
      get_current_leagues (s\<lparr>leagues := fold (merge_row lg_id cp_league) ls (leagues s)\<rparr>)"
      by (rule get_current_leagues_frame) (simp add: teams(4) ls')
    then show ?thesis by (simp add: teams(4) ls')
  qed
  then show ?thesis by (simp add: f cur)
qed

text \<open>
  Claim C9, as stated, fails: the link stage reads every fixture of the store, not only
  those of the current leagues.  Here the only current league, 3, has no fixture before
  or after the run, the store holds one fixture of league 1, which is not current, and
  the run adds both of its teams as members of league 1.
\<close>

theorem load_all_other_fixtures_counterexample:
  "map lg_id (get_current_leagues old_store) = [] \<and>
   map f_league_id (fixtures old_store) = [1] \<and>
   teams_leagues old_store = [] \<and>
   map lg_id (get_current_leagues (data_interface (fst (load_all demo_cfg api_ok demo_now old_loader)))) = [3] \<and>
   map f_league_id (fixtures (data_interface (fst (load_all demo_cfg api_ok demo_now old_loader)))) = [1] \<and>
   teams_leagues (data_interface (fst (load_all demo_cfg api_ok demo_now old_loader))) = [(6, 1), (5, 1)]"
  by (simp add: old_run)
     (simp add: old_refreshed_loader_def old_refreshed_def old_store_def old_league_def
        old_fixture_def premiership_def get_current_leagues_def)

text \<open>
  Claim C9, amended.  For every store and every run of \<open>load_all\<close>, failing or not: a
  league that has no fixture in the store after the run has the same rows in the table
  of team and league pairs as before the run, in the same order, and no row of any
  league is removed from the table.  When the refresh runs through, the leagues are
  the stored ones merged with the fetched ones, and the teams are the stored ones
  merged with those fetched for the current leagues.
\<close>

theorem load_all_membership_frame:
  assumes "load_all cfg api now d = (d1, r)"
  shows "(c \<notin> f_league_id ` set (fixtures (data_interface d1)) \<longrightarrow>
       rows_of c (teams_leagues (data_interface d1)) = rows_of c (teams_leagues (data_interface d))) \<and>
    set (teams_leagues (data_interface d)) \<subseteq> set (teams_leagues (data_interface d1)) \<and>
    (snd (refresh_body cfg api now d) = None \<and>
     api_get_leagues api (countries cfg) (seasons cfg) (use_backup cfg) = Inr ls \<longrightarrow>
       leagues (data_interface d1) = fold (merge_row lg_id cp_league) ls (leagues (data_interface d)) \<and>
       teams (data_interface d1) =
         fold (merge_row tm_id cp_all)
           (fetched (\<lambda>i. api_get_teams_by_league api i (use_backup cfg))
              (get_current_leagues (data_interface d1)))
           (teams (data_interface d)))"
proof -
  obtain q where 1: "store_refresh cfg api (data_interface d) = (data_interface d1, q)"
    using load_all_store_refresh [OF assms] by blast
  have q: "q = snd (refresh_body cfg api now d)"
    using refresh_body_store [of cfg api now d] 1
    by (cases "refresh_body cfg api now d") simp
  have "snd (refresh_body cfg api now d) = None \<and>
     api_get_leagues api (countries cfg) (seasons cfg) (use_backup cfg) = Inr ls \<longrightarrow>
       leagues (data_interface d1) = fold (merge_row lg_id cp_league) ls (leagues (data_interface d)) \<and>
       teams (data_interface d1) =
         fold (merge_row tm_id cp_all)
           (fetched (\<lambda>i. api_get_teams_by_league api i (use_backup cfg))
              (get_current_leagues (data_interface d1)))
           (teams (data_interface d))"
    using store_refresh_upsert [of cfg api "data_interface d" "data_interface d1" ls] 1 q by simp
  then show ?thesis using store_refresh_rows [OF 1, of c] by blast
qed

theorem load_all_membership_frame_witness:
  "load_all demo_cfg api_ok demo_now old_loader = (old_refreshed_loader, None) \<and>
   snd (refresh_body demo_cfg api_ok demo_now old_loader) = None \<and>
   api_get_leagues api_ok (countries demo_cfg) (seasons demo_cfg) (use_backup demo_cfg) =
     Inr [premiership] \<and>
   map f_league_id (fixtures (data_interface old_refreshed_loader)) = [1] \<and>
   rows_of 3 (teams_leagues (data_interface old_refreshed_loader)) =
     rows_of 3 (teams_leagues (data_interface old_loader)) \<and>
   teams_leagues (data_interface old_loader) = [] \<and>
   teams_leagues (data_interface old_refreshed_loader) = [(6, 1), (5, 1)] \<and>
   leagues (data_interface old_refreshed_loader) = [old_league, premiership] \<and>
   teams (data_interface old_refreshed_loader) = [celtic, rangers]"
proof -
  have b: "snd (refresh_body demo_cfg api_ok demo_now old_loader) = None"
    by (simp add: demo_defs loader_defs more_defs link_defs refresh_body_def)
  have l: "api_get_leagues api_ok (countries demo_cfg) (seasons demo_cfg) (use_backup demo_cfg) =
      Inr [premiership]"
    by (simp add: api_ok_def api_status_down_def)
  have f: "map f_league_id (fixtures (data_interface old_refreshed_loader)) = [1]"
    by (simp add: old_refreshed_loader_def old_refreshed_def old_fixture_def)
  have n: "3 \<notin> f_league_id ` set (fixtures (data_interface old_refreshed_loader))"
    by (simp add: old_refreshed_loader_def old_refreshed_def old_fixture_def)
  have t: "teams_leagues (data_interface old_loader) = []"
      "teams_leagues (data_interface old_refreshed_loader) = [(6, 1), (5, 1)]"
      "leagues (data_interface old_refreshed_loader) = [old_league, premiership]"
      "teams (data_interface old_refreshed_loader) = [celtic, rangers]"
    by (simp_all add: old_loader_def old_store_def old_refreshed_loader_def old_refreshed_def)
  show ?thesis
    using load_all_membership_frame [OF old_run, where c = 3 and ls = "[premiership]"] b l f n t old_run
    by simp
qed


section \<open>Properties of the football API\<close>

lemma read_backup_no_backups: "read_backup (no_backups env) data_id = Inr JNull"
  by (simp add: read_backup_def no_backups_def)

text \<open>
  Claim C1, evaluated where the code departs from it.  With \<open>use_backup\<close> set and
  neither today's nor yesterday's backup file present, \<open>_read_backup\<close> returns \<open>None\<close>
  without raising, but each of the three methods then subscripts that \<open>None\<close> with
  \<open>"api"\<close> and raises \<open>TypeError\<close> instead of returning an empty list.
\<close>

theorem offline_without_backup_raises:
  "read_backup (no_backups env) data_id = Inr JNull \<and>
   get_leagues from_api (no_backups env) cs ss True = (no_backups env, Inl TypeError) \<and>
   get_fixtures_by_league from_api' (no_backups env) league_id tz True = (no_backups env, Inl TypeError) \<and>
   get_teams_by_league from_api'' (no_backups env) league_id True = (no_backups env, Inl TypeError)"
  by (simp add: get_leagues_def get_fixtures_by_league_def get_teams_by_league_def fetch_def
      read_backup_no_backups api_items_def subscript_def)

end
